theory Spec2Isabelle
  imports Main "HOL-Library.AList" "HOL-Library.Char_ord" "HOL-Library.List_Lexorder"
    "HOL-Library.Multiset"
begin

section \<open>Point-of-sale checkout, offline-aware read and sales-trend chart\<close>

text \<open>
  JavaScript numbers are modelled as \<open>int\<close>: prices, quantities, stock levels and
  epoch milliseconds are integers, on which the arithmetic of the source is exact as
  long as the values stay below \<open>2 ^ 53\<close>. \<open>NaN\<close> and fractional values are not
  modelled.
\<close>

subsection \<open>Data model of the sales page\<close>

datatype PaymentMethod = cash | mpesa | debt

text \<open>\<open>Product\<close>: the fields \<open>id\<close> and \<open>name\<close> of the source are \<open>prod_id\<close> and \<open>prod_name\<close>.\<close>

record Product =
  prod_id :: string
  prod_name :: string
  category :: string
  sellingPrice :: int
  costPrice :: int
  currentStock :: int

text \<open>\<open>CartItem\<close> is a product with a quantity (\<open>{ ...product, quantity }\<close>).\<close>

record CartItem = Product +
  quantity :: int

text \<open>\<open>Customer\<close>: the fields \<open>id\<close> and \<open>name\<close> of the source are \<open>cust_id\<close> and \<open>cust_name\<close>.\<close>

record Customer =
  cust_id :: string
  cust_name :: string
  phone :: string
  outstandingDebt :: int
  totalPurchases :: int
  lastPurchaseDate :: "string option"

text \<open>The object literal \<open>saleData\<close> built for every cart line (\<open>quantity\<close> is \<open>sale_quantity\<close>).\<close>

record SaleData =
  user_id :: string
  product_id :: string
  product_name :: string
  sale_quantity :: int
  selling_price :: int
  cost_price :: int
  profit :: int
  total_amount :: int
  customer_id :: "string option"
  customer_name :: "string option"
  payment_method :: PaymentMethod
  payment_details :: "(string \<times> string) list"
  timestamp :: string
  synced :: bool

text \<open>The second argument of \<open>updateCustomer(customer.id, {...})\<close>.\<close>

record CustomerPatch =
  patch_outstandingDebt :: int
  patch_totalPurchases :: int
  patch_lastPurchaseDate :: string

text \<open>A request sent to the hosted database by the sales page: \<open>from('sales').insert(saleData)\<close>
  or \<open>from('products').update({current_stock}).eq('id', id)\<close>.\<close>

datatype remote_request = InsertSale SaleData | UpdateStock string int

text \<open>\<open>toast({title, description, variant})\<close>; the flag says \<open>variant: "destructive"\<close>.\<close>

datatype Toast = Toast string string bool

text \<open>
  The state the component reads and writes: its own \<open>useState\<close> cells (\<open>cart\<close>,
  \<open>selectedCustomerId\<close>, \<open>paymentMethod\<close>, \<open>isProcessingCheckout\<close>), the toasts shown,
  what the hooks provide (\<open>user\<close> as the id of the signed-in user, \<open>customers\<close>,
  \<open>isOnline\<close>), and what the page's calls leave behind: the rows inserted into the remote
  table \<open>sales\<close>, every request issued to the remote store, the calls made to
  \<open>updateCustomer\<close>, the local queue of pending sales, and the lines written with
  \<open>console.warn\<close> and \<open>console.error\<close>.
\<close>

record state =
  cart :: "CartItem list"
  selectedCustomerId :: "string option"
  paymentMethod :: PaymentMethod
  isProcessingCheckout :: bool
  toasts :: "Toast list"
  user :: "string option"
  customers :: "Customer list"
  isOnline :: bool
  sales_table :: "SaleData list"
  remote_log :: "remote_request list"
  customer_updates :: "(string \<times> CustomerPatch) list"
  pending_queue :: "SaleData list"
  console :: "string list"

text \<open>
  What the outside world answers during one checkout, by the position of the cart line:
  the error of the remote insert (if it is rejected), the error thrown by
  \<open>updateCustomer\<close> (if it throws), whether the stock update reports an error, and the
  two readings of the clock (\<open>new Date().toISOString()\<close>).
\<close>

record env =
  sale_insert_error :: "nat \<Rightarrow> string option"
  update_customer_error :: "nat \<Rightarrow> string option"
  stock_update_error :: "nat \<Rightarrow> bool"
  sale_time :: "nat \<Rightarrow> string"
  purchase_time :: "nat \<Rightarrow> string"

subsection \<open>Cart operations\<close>

text \<open>\<open>const cartItem: CartItem = { ...product, quantity: 1 }\<close>\<close>

definition cartItem :: "Product \<Rightarrow> CartItem" where
  "cartItem product =
     \<lparr>prod_id = prod_id product, prod_name = prod_name product,
      category = category product, sellingPrice = sellingPrice product,
      costPrice = costPrice product, currentStock = currentStock product,
      quantity = 1\<rparr>"

text \<open>\<open>addToCart\<close>; \<open>shouldAdd\<close> is the answer to \<open>window.confirm\<close>, asked only for a
  product whose stock is 0.\<close>

definition addToCart :: "bool \<Rightarrow> Product \<Rightarrow> state \<Rightarrow> state" where
  "addToCart shouldAdd product s =
     (if currentStock product = 0 \<and> \<not> shouldAdd then s
      else (case find (\<lambda>item. prod_id item = prod_id product) (cart s) of
              Some existingItem \<Rightarrow>
                s\<lparr>cart := map (\<lambda>item. if prod_id item = prod_id product
                                       then item\<lparr>quantity := quantity item + 1\<rparr> else item) (cart s)\<rparr>
            | None \<Rightarrow>
                s\<lparr>cart := cart s @ [cartItem product]\<rparr>))"

definition removeFromCart :: "string \<Rightarrow> state \<Rightarrow> state" where
  "removeFromCart productId s = s\<lparr>cart := filter (\<lambda>item. prod_id item \<noteq> productId) (cart s)\<rparr>"

definition updateQuantity :: "string \<Rightarrow> int \<Rightarrow> state \<Rightarrow> state" where
  "updateQuantity productId newQuantity s =
     (if newQuantity \<le> 0 then removeFromCart productId s
      else s\<lparr>cart := map (\<lambda>item. if prod_id item = productId
                                  then item\<lparr>quantity := newQuantity\<rparr> else item) (cart s)\<rparr>)"

definition clearCart :: "state \<Rightarrow> state" where
  "clearCart s = s\<lparr>cart := []\<rparr>"

subsection \<open>Checkout\<close>

text \<open>\<open>!selectedCustomerId\<close>: \<open>null\<close> and the empty string are falsy.\<close>

definition noCustomerSelected :: "string option \<Rightarrow> bool" where
  "noCustomerSelected cid = (case cid of None \<Rightarrow> True | Some i \<Rightarrow> i = [])"

text \<open>\<open>selectedCustomerId ? customers.find(c => c.id === selectedCustomerId) || null : null\<close>\<close>

definition findCustomer :: "state \<Rightarrow> Customer option" where
  "findCustomer s =
     (case selectedCustomerId s of
        None \<Rightarrow> None
      | Some i \<Rightarrow> if i = [] then None else find (\<lambda>c. cust_id c = i) (customers s))"

text \<open>\<open>customer?.name || null\<close>: the empty name is falsy.\<close>

definition customerName :: "Customer option \<Rightarrow> string option" where
  "customerName customer =
     (case customer of None \<Rightarrow> None
      | Some c \<Rightarrow> if cust_name c = [] then None else Some (cust_name c))"

text \<open>The record built at the top of both loops; they differ in \<open>synced\<close> only.\<close>

definition saleData ::
  "string \<Rightarrow> PaymentMethod \<Rightarrow> string option \<Rightarrow> Customer option \<Rightarrow> string \<Rightarrow> bool \<Rightarrow> CartItem \<Rightarrow> SaleData" where
  "saleData uid pm customerId customer ts sync item =
     \<lparr>user_id = uid,
      product_id = prod_id item,
      product_name = prod_name item,
      sale_quantity = quantity item,
      selling_price = sellingPrice item,
      cost_price = costPrice item,
      profit = (sellingPrice item - costPrice item) * quantity item,
      total_amount = sellingPrice item * quantity item,
      customer_id = customerId,
      customer_name = customerName customer,
      payment_method = pm,
      payment_details = [],
      timestamp = ts,
      synced = sync\<rparr>"

text \<open>\<open>x || 0\<close> on a number.\<close>

definition orZero :: "int \<Rightarrow> int" where
  "orZero x = (if x = 0 then 0 else x)"

text \<open>The patch passed to \<open>updateCustomer\<close> for one line of a debt sale; \<open>customer\<close> is the
  object found when the checkout started.\<close>

definition debtPatch :: "Customer \<Rightarrow> string \<Rightarrow> CartItem \<Rightarrow> CustomerPatch" where
  "debtPatch customer ts item =
     \<lparr>patch_outstandingDebt = orZero (outstandingDebt customer) + sellingPrice item * quantity item,
      patch_totalPurchases = orZero (totalPurchases customer) + sellingPrice item * quantity item,
      patch_lastPurchaseDate = ts\<rparr>"

text \<open>
  The body of \<open>for (const item of cart)\<close> in \<open>processOnlineSale\<close>, with the position \<open>i\<close>
  of the line. The result is the message of the error thrown (if any) and the state
  reached; what was written before a throw stays written.
\<close>

fun onlineLoop ::
  "env \<Rightarrow> string \<Rightarrow> PaymentMethod \<Rightarrow> string option \<Rightarrow> Customer option \<Rightarrow> nat \<Rightarrow> CartItem list
     \<Rightarrow> state \<Rightarrow> string option \<times> state" where
  "onlineLoop e uid pm customerId customer i [] s = (None, s)"
| "onlineLoop e uid pm customerId customer i (item # rest) s =
     (let sd = saleData uid pm customerId customer (sale_time e i) True item;
          s1 = s\<lparr>remote_log := remote_log s @ [InsertSale sd]\<rparr>
      in case sale_insert_error e i of
           Some msg \<Rightarrow> (Some (''Failed to create sale for '' @ prod_name item @ '': '' @ msg), s1)
         | None \<Rightarrow>
             (let s2 = s1\<lparr>sales_table := sales_table s1 @ [sd]\<rparr>;
                  s3 = (case customer of
                          Some c \<Rightarrow>
                            if pm = debt
                            then s2\<lparr>customer_updates := customer_updates s2 @
                                       [(cust_id c, debtPatch c (purchase_time e i) item)]\<rparr>
                            else s2
                        | None \<Rightarrow> s2)
              in if pm = debt \<and> customer \<noteq> None \<and> update_customer_error e i \<noteq> None
                 then (update_customer_error e i, s3)
                 else
                   (let s4 = s3\<lparr>remote_log := remote_log s3 @
                               [UpdateStock (prod_id item) (max 0 (currentStock item - quantity item))]\<rparr>;
                        s5 = (if stock_update_error e i
                              then s4\<lparr>console := console s4 @
                                        [''Failed to update stock for '' @ prod_name item @ '':'']\<rparr>
                              else s4)
                    in onlineLoop e uid pm customerId customer (Suc i) rest s5)))"

definition processOnlineSale :: "env \<Rightarrow> string option \<Rightarrow> Customer option \<Rightarrow> state \<Rightarrow> string option \<times> state" where
  "processOnlineSale e customerId customer s =
     (case user s of
        None \<Rightarrow> (Some ''User not authenticated'', s)
      | Some uid \<Rightarrow> onlineLoop e uid (paymentMethod s) customerId customer 0 (cart s) s)"

text \<open>
  Modelled from the spec: \<open>createOfflineSale\<close> of the hook \<open>useOfflineSales\<close> is not among
  the sources. The spec's offline path of the sale recorder "appends to the local pending
  queue; always succeeds locally (no remote round trip), increments the pending-operation
  count".
\<close>

definition createOfflineSale :: "SaleData \<Rightarrow> state \<Rightarrow> state" where
  "createOfflineSale sd s = s\<lparr>pending_queue := pending_queue s @ [sd]\<rparr>"

text \<open>
  Modelled from the spec: \<open>pendingOperations\<close> of the hook \<open>useOfflineManager\<close> is not among
  the sources. The spec's connectivity monitor exposes "the count of PendingOperations not
  yet transmitted", a pending operation being a queued sale record.
\<close>

definition pendingOperations :: "state \<Rightarrow> nat" where
  "pendingOperations s = length (pending_queue s)"

fun offlineLoop ::
  "env \<Rightarrow> string \<Rightarrow> PaymentMethod \<Rightarrow> string option \<Rightarrow> Customer option \<Rightarrow> nat \<Rightarrow> CartItem list
     \<Rightarrow> state \<Rightarrow> state" where
  "offlineLoop e uid pm customerId customer i [] s = s"
| "offlineLoop e uid pm customerId customer i (item # rest) s =
     offlineLoop e uid pm customerId customer (Suc i) rest
       (createOfflineSale (saleData uid pm customerId customer (sale_time e i) False item) s)"

definition processOfflineSale :: "env \<Rightarrow> string option \<Rightarrow> Customer option \<Rightarrow> state \<Rightarrow> string option \<times> state" where
  "processOfflineSale e customerId customer s =
     (case user s of
        None \<Rightarrow> (Some ''User not authenticated'', s)
      | Some uid \<Rightarrow> (None, offlineLoop e uid (paymentMethod s) customerId customer 0 (cart s) s))"

definition customerRequiredToast :: Toast where
  "customerRequiredToast =
     Toast ''Customer Required'' ''Please select a customer for debt transactions.'' True"

definition saleCompletedToast :: "bool \<Rightarrow> Toast" where
  "saleCompletedToast online =
     Toast ''Sale Completed!''
       (''Transaction processed successfully'' @ (if \<not> online then '' (offline)'' else []) @ ''.'')
       False"

definition checkoutErrorToast :: Toast where
  "checkoutErrorToast = Toast ''Error'' ''Failed to process sale. Please try again.'' True"

text \<open>\<open>handleCheckout\<close>: the two early returns, then \<open>try\<close> / \<open>catch\<close> / \<open>finally\<close>.\<close>

definition handleCheckout :: "env \<Rightarrow> state \<Rightarrow> state" where
  "handleCheckout e s =
     (if cart s = [] then s
      else if paymentMethod s = debt \<and> noCustomerSelected (selectedCustomerId s)
      then s\<lparr>toasts := toasts s @ [customerRequiredToast]\<rparr>
      else
        (let s1 = s\<lparr>isProcessingCheckout := True\<rparr>;
             customer = findCustomer s1;
             (thrown, s2) = (if isOnline s1
                             then processOnlineSale e (selectedCustomerId s1) customer s1
                             else processOfflineSale e (selectedCustomerId s1) customer s1)
         in case thrown of
              None \<Rightarrow>
                (clearCart (s2\<lparr>toasts := toasts s2 @ [saleCompletedToast (isOnline s1)]\<rparr>))
                  \<lparr>selectedCustomerId := None, paymentMethod := cash, isProcessingCheckout := False\<rparr>
            | Some err \<Rightarrow>
                s2\<lparr>console := console s2 @ [''Checkout error: '' @ err],
                   toasts := toasts s2 @ [checkoutErrorToast],
                   isProcessingCheckout := False\<rparr>))"

subsection \<open>Notions used to state the properties of the sales page\<close>

text \<open>The sale records, customer updates and requests of the lines \<open>items\<close>, the first of
  which has position \<open>i\<close>; the state after one line went through.\<close>

definition onlineRecords :: "env \<Rightarrow> string \<Rightarrow> PaymentMethod \<Rightarrow> string option \<Rightarrow> Customer option \<Rightarrow> nat \<Rightarrow> CartItem list \<Rightarrow> SaleData list" where
  "onlineRecords e uid pm cid c i items =
     map (\<lambda>(j, item). saleData uid pm cid c (sale_time e j) True item) (enumerate i items)"

definition offlineRecords :: "env \<Rightarrow> string \<Rightarrow> PaymentMethod \<Rightarrow> string option \<Rightarrow> Customer option \<Rightarrow> nat \<Rightarrow> CartItem list \<Rightarrow> SaleData list" where
  "offlineRecords e uid pm cid c i items =
     map (\<lambda>(j, item). saleData uid pm cid c (sale_time e j) False item) (enumerate i items)"

definition debtUpdates :: "env \<Rightarrow> PaymentMethod \<Rightarrow> Customer option \<Rightarrow> nat \<Rightarrow> CartItem list \<Rightarrow> (string \<times> CustomerPatch) list" where
  "debtUpdates e pm customer i items =
     (case customer of
        None \<Rightarrow> []
      | Some c \<Rightarrow> if pm = debt
                  then map (\<lambda>(j, item). (cust_id c, debtPatch c (purchase_time e j) item)) (enumerate i items)
                  else [])"

definition lineRequests :: "env \<Rightarrow> string \<Rightarrow> PaymentMethod \<Rightarrow> string option \<Rightarrow> Customer option \<Rightarrow> nat \<Rightarrow> CartItem list \<Rightarrow> remote_request list" where
  "lineRequests e uid pm cid c i items =
     concat (map (\<lambda>(j, item). [InsertSale (saleData uid pm cid c (sale_time e j) True item),
                                 UpdateStock (prod_id item) (max 0 (currentStock item - quantity item))])
                 (enumerate i items))"

definition lineDone :: "env \<Rightarrow> string \<Rightarrow> PaymentMethod \<Rightarrow> string option \<Rightarrow> Customer option \<Rightarrow> nat \<Rightarrow> CartItem \<Rightarrow> state \<Rightarrow> state" where
  "lineDone e uid pm cid c i item s =
     s\<lparr>sales_table := sales_table s @ onlineRecords e uid pm cid c i [item],
       customer_updates := customer_updates s @ debtUpdates e pm c i [item],
       remote_log := remote_log s @ lineRequests e uid pm cid c i [item],
       console := console s @
         (if stock_update_error e i then [''Failed to update stock for '' @ prod_name item @ '':''] else [])\<rparr>"


fun stockRequests :: "remote_request list \<Rightarrow> (string \<times> int) list" where
  "stockRequests [] = []"
| "stockRequests (InsertSale sd # rs) = stockRequests rs"
| "stockRequests (UpdateStock p v # rs) = (p, v) # stockRequests rs"

text \<open>
  Modelled from the spec: \<open>updateCustomer\<close> of the hook \<open>useSupabaseCustomers\<close> is not among
  the sources. The page calls it with a customer id and the new values of three fields, and
  the spec describes the call as the update of the customer's record ("update
  customer.outstandingDebt += lineTotal, totalPurchases += lineTotal, lastPurchaseDate =
  now"): a call stores the values it is given in the record of that customer.
  \<open>customersAfter\<close> is the customer table once the calls a state has logged are applied in
  order.
\<close>

definition applyCustomerUpdate :: "string \<times> CustomerPatch \<Rightarrow> Customer list \<Rightarrow> Customer list" where
  "applyCustomerUpdate u cs =
     map (\<lambda>c. if cust_id c = fst u
              then c\<lparr>outstandingDebt := patch_outstandingDebt (snd u),
                     totalPurchases := patch_totalPurchases (snd u),
                     lastPurchaseDate := Some (patch_lastPurchaseDate (snd u))\<rparr>
              else c) cs"

definition customersAfter :: "state \<Rightarrow> Customer list" where
  "customersAfter s = fold applyCustomerUpdate (customer_updates s) (customers s)"

text \<open>Concrete carts, customers and answers of the outside world.\<close>

definition sugar :: CartItem where
  "sugar = \<lparr>prod_id = ''p1'', prod_name = ''Sugar'', category = ''Food'', sellingPrice = 100,
            costPrice = 60, currentStock = 5, quantity = 2\<rparr>"

definition soap :: CartItem where
  "soap = \<lparr>prod_id = ''p2'', prod_name = ''Soap'', category = ''Home'', sellingPrice = 40,
           costPrice = 25, currentStock = 1, quantity = 3\<rparr>"

definition amina :: Customer where
  "amina = \<lparr>cust_id = ''c1'', cust_name = ''Amina'', phone = ''0700'', outstandingDebt = 50,
            totalPurchases = 500, lastPurchaseDate = None\<rparr>"

definition quietEnv :: env where
  "quietEnv = \<lparr>sale_insert_error = (\<lambda>i. None), update_customer_error = (\<lambda>i. None),
               stock_update_error = (\<lambda>i. False), sale_time = (\<lambda>i. ''t''),
               purchase_time = (\<lambda>i. ''t'')\<rparr>"

definition secondInsertFails :: env where
  "secondInsertFails = quietEnv\<lparr>sale_insert_error := (\<lambda>i. if i = 1 then Some ''rejected'' else None)\<rparr>"

definition till :: "bool \<Rightarrow> string option \<Rightarrow> PaymentMethod \<Rightarrow> string option \<Rightarrow> state" where
  "till online usr pm cid =
     \<lparr>cart = [sugar, soap], selectedCustomerId = cid, paymentMethod = pm,
      isProcessingCheckout = False, toasts = [], user = usr, customers = [amina],
      isOnline = online, sales_table = [], remote_log = [], customer_updates = [],
      pending_queue = [], console = []\<rparr>"

text \<open>What a user can do to the cart, and the states reached that way.\<close>

datatype cart_action =
    AddToCart bool Product
  | RemoveFromCart string
  | UpdateQuantity string int
  | ClearCart
  | Checkout env

fun cartStep :: "state \<Rightarrow> cart_action \<Rightarrow> state" where
  "cartStep s (AddToCart shouldAdd product) = addToCart shouldAdd product s"
| "cartStep s (RemoveFromCart productId) = removeFromCart productId s"
| "cartStep s (UpdateQuantity productId newQuantity) = updateQuantity productId newQuantity s"
| "cartStep s ClearCart = clearCart s"
| "cartStep s (Checkout e) = handleCheckout e s"

definition cartInvariant :: "CartItem list \<Rightarrow> bool" where
  "cartInvariant c = (distinct (map prod_id c) \<and> list_all (\<lambda>item. 0 < quantity item) c)"

definition flour :: Product where
  "flour = \<lparr>prod_id = ''p3'', prod_name = ''Flour'', category = ''Food'', sellingPrice = 150,
            costPrice = 120, currentStock = 0\<rparr>"

definition rice :: Product where
  "rice = \<lparr>prod_id = ''p4'', prod_name = ''Rice'', category = ''Food'', sellingPrice = 200,
           costPrice = 170, currentStock = 7\<rparr>"

definition emptyTill :: state where
  "emptyTill = (till True (Some ''u1'') cash None)\<lparr>cart := []\<rparr>"

subsection \<open>The offline-aware read (\<open>useOfflineAwareData\<close>)\<close>

text \<open>Values of row fields and of filters; \<open>===\<close> on them is equality.\<close>

datatype jsval = JUndefined | JNull | JBool bool | JNum int | JStr string

text \<open>A row is an object, here the list of its fields; \<open>item[key]\<close> of a field it does not
  have is \<open>undefined\<close>.\<close>

type_synonym row = "(string \<times> jsval) list"

definition getField :: "row \<Rightarrow> string \<Rightarrow> jsval" where
  "getField item key = (case map_of item key of None \<Rightarrow> JUndefined | Some v \<Rightarrow> v)"

datatype table = Products | Customers | Sales | Transactions

text \<open>What a \<open>catch\<close> receives: an \<open>Error\<close> with its message, or any other value.\<close>

datatype thrown = ErrorObject string | OtherValue

text \<open>\<open>err instanceof Error ? err.message : 'Unknown error occurred'\<close>\<close>

definition errorMessage :: "thrown \<Rightarrow> string" where
  "errorMessage err = (case err of ErrorObject m \<Rightarrow> m | OtherValue \<Rightarrow> ''Unknown error occurred'')"

text \<open>The answer \<open>{ data: freshData, error: fetchError }\<close> of the remote query: an error, or
  the rows (possibly \<open>null\<close>).\<close>

datatype query_result = QueryError thrown | QueryData "row list option"

text \<open>The query sent: table, \<open>select\<close>, and the \<open>.eq(key, value)\<close> conditions in order.\<close>

type_synonym query = "table \<times> string \<times> (string \<times> jsval) list"

text \<open>
  The state of the hook (\<open>data\<close>, \<open>loading\<close>, \<open>error\<close>), the local cache, and the queries
  issued to the remote store so far.

  Modelled from the spec: \<open>getOfflineData\<close> and \<open>storeOfflineData\<close> of the hook
  \<open>useOfflineFirst\<close> are not among the sources. The spec's cache store keeps "the last-known
  snapshot of each remote collection", \<open>put\<close> replaces the snapshot, and a read never fails:
  here the cache is a map from tables to snapshots, \<open>getOfflineData\<close> is the lookup (nothing
  on a miss) and \<open>storeOfflineData\<close> the update.
\<close>

record hook =
  data :: "row list"
  loading :: bool
  error :: "string option"
  cache :: "table \<Rightarrow> row list option"
  queries :: "query list"

definition getOfflineData :: "table \<Rightarrow> hook \<Rightarrow> row list option" where
  "getOfflineData tbl h = cache h tbl"

definition storeOfflineData :: "table \<Rightarrow> row list \<Rightarrow> hook \<Rightarrow> hook" where
  "storeOfflineData tbl rows h = h\<lparr>cache := (cache h)(tbl \<mapsto> rows)\<rparr>"

text \<open>\<open>value !== undefined && value !== null\<close>\<close>

definition isSet :: "jsval \<Rightarrow> bool" where
  "isSet v = (v \<noteq> JUndefined \<and> v \<noteq> JNull)"

text \<open>The online loop over \<open>Object.entries(filters)\<close>: one \<open>.eq\<close> per filter that is set.\<close>

definition eqConditions :: "(string \<times> jsval) list \<Rightarrow> (string \<times> jsval) list" where
  "eqConditions filters = filter (\<lambda>(key, v). isSet v) filters"

text \<open>The offline loop over \<open>Object.entries(filters)\<close>: \<open>filteredData\<close> is filtered once per
  filter that is set.\<close>

fun applyFilters :: "(string \<times> jsval) list \<Rightarrow> row list \<Rightarrow> row list" where
  "applyFilters [] filteredData = filteredData"
| "applyFilters ((key, v) # rest) filteredData =
     applyFilters rest
       (if isSet v then filter (\<lambda>item. getField item key = v) filteredData else filteredData)"

text \<open>The \<open>catch\<close> block: the error is set, then the cache is read again, without filters;
  \<open>if (fallbackData)\<close> fails on a miss only (an array, even empty, is truthy). With the
  cache as modelled the inner \<open>try\<close> cannot throw.\<close>

definition catchFetchError :: "table \<Rightarrow> thrown \<Rightarrow> hook \<Rightarrow> hook" where
  "catchFetchError tbl err h =
     (let h1 = h\<lparr>error := Some (errorMessage err)\<rparr>
      in case getOfflineData tbl h1 of
           Some fallbackData \<Rightarrow> h1\<lparr>data := fallbackData\<rparr>
         | None \<Rightarrow> h1)"

text \<open>\<open>fetchData\<close>; \<open>remote\<close> is the answer of the hosted database to a query. The
  \<open>finally\<close> block resets \<open>loading\<close> on every path.\<close>

definition fetchData ::
  "bool \<Rightarrow> (query \<Rightarrow> query_result) \<Rightarrow> table \<Rightarrow> string \<Rightarrow> (string \<times> jsval) list \<Rightarrow> hook \<Rightarrow> hook" where
  "fetchData online remote tbl select filters h =
     (let h0 = h\<lparr>loading := True, error := None\<rparr>;
          h' = (if online
                then (let q = (tbl, select, eqConditions filters);
                          h1 = h0\<lparr>queries := queries h0 @ [q]\<rparr>
                      in case remote q of
                           QueryError fetchError \<Rightarrow> catchFetchError tbl fetchError h1
                         | QueryData None \<Rightarrow> h1
                         | QueryData (Some freshData) \<Rightarrow>
                             (storeOfflineData tbl freshData h1)\<lparr>data := freshData\<rparr>)
                else (let cachedData = getOfflineData tbl h0;
                          filteredData = applyFilters filters
                                           (case cachedData of None \<Rightarrow> [] | Some rows \<Rightarrow> rows)
                      in h0\<lparr>data := filteredData\<rparr>))
      in h'\<lparr>loading := False\<rparr>)"

text \<open>Concrete rows and answers for the read.\<close>

definition foodRow :: row where
  "foodRow = [(''id'', JStr ''p1''), (''category'', JStr ''Food'')]"

definition homeRow :: row where
  "homeRow = [(''id'', JStr ''p2''), (''category'', JStr ''Home'')]"

definition shelf :: hook where
  "shelf = \<lparr>data = [], loading = False, error = None,
            cache = (\<lambda>t. if t = Products then Some [foodRow, homeRow] else None),
            queries = []\<rparr>"

definition remoteDown :: "query \<Rightarrow> query_result" where
  "remoteDown q = QueryError (ErrorObject ''Failed to fetch'')"

subsection \<open>The sales-trend chart (\<open>EnhancedSalesTrendChart\<close>)\<close>

text \<open>The fields of a \<open>Sale\<close> the chart reads; \<open>discountAmount\<close> is
  \<open>sale.paymentDetails?.discountAmount\<close>, absent when either is.\<close>

record Sale =
  sale_timestamp :: string
  total :: int
  discountAmount :: "int option"

datatype TimeframeType = hourly | daily | monthly

text \<open>\<open>ChartDataPoint\<close>; its field \<open>timestamp\<close> is \<open>point_timestamp\<close>.\<close>

record ChartDataPoint =
  label :: string
  revenue :: int
  point_timestamp :: string
  displayLabel :: string

text \<open>
  The \<open>Date\<close> of the JavaScript runtime, in its local time zone. A date is its time value
  (\<open>getTime()\<close>, milliseconds since the epoch). \<open>parse s\<close> is \<open>new Date(s).getTime()\<close>,
  \<open>newDate y m d\<close> is \<open>new Date(y, m, d).getTime()\<close>, \<open>setDate t d\<close> and \<open>setMonth t m\<close> are
  the time value after \<open>setDate(d)\<close> and \<open>setMonth(m)\<close> on a date of time value \<open>t\<close>.
  The three label functions give the \<open>displayLabel\<close> the chart computes from a bucket key
  (for days and months through \<open>toLocaleDateString\<close>). Invalid dates are not modelled.
\<close>

record dates =
  parse :: "string \<Rightarrow> int"
  getFullYear :: "int \<Rightarrow> int"
  getMonth :: "int \<Rightarrow> int"
  getDate :: "int \<Rightarrow> int"
  getHours :: "int \<Rightarrow> int"
  newDate :: "int \<Rightarrow> int \<Rightarrow> int \<Rightarrow> int"
  setDate :: "int \<Rightarrow> int \<Rightarrow> int"
  setMonth :: "int \<Rightarrow> int \<Rightarrow> int"
  hourLabel :: "string \<Rightarrow> string"
  dayLabel :: "string \<Rightarrow> string"
  monthLabel :: "string \<Rightarrow> string"

text \<open>\<open>String(n)\<close> for an integer, and \<open>padStart(2, '0')\<close>.\<close>

definition digitChar :: "nat \<Rightarrow> char" where
  "digitChar n = char_of (48 + n)"

function natToString :: "nat \<Rightarrow> string" where
  "natToString n = (if n < 10 then [digitChar n] else natToString (n div 10) @ [digitChar (n mod 10)])"
  by pat_completeness auto
termination
  by (relation "measure id") auto

declare natToString.simps [simp del]

definition numToString :: "int \<Rightarrow> string" where
  "numToString i = (if i < 0 then CHR ''-'' # natToString (nat (- i)) else natToString (nat i))"

definition padStart2 :: "string \<Rightarrow> string" where
  "padStart2 s = replicate (2 - length s) CHR ''0'' @ s"

text \<open>The three bucket keys, from the local calendar fields of a time value.\<close>

definition monthKey :: "dates \<Rightarrow> int \<Rightarrow> string" where
  "monthKey rt t = numToString (getFullYear rt t) @ ''-'' @ padStart2 (numToString (getMonth rt t + 1))"

definition dayKey :: "dates \<Rightarrow> int \<Rightarrow> string" where
  "dayKey rt t = monthKey rt t @ ''-'' @ padStart2 (numToString (getDate rt t))"

definition hourKey :: "dates \<Rightarrow> int \<Rightarrow> string" where
  "hourKey rt t = dayKey rt t @ ''-'' @ padStart2 (numToString (getHours rt t))"

text \<open>
  \<open>dataMap\<close> is a \<open>Map<string, number>\<close>: its entries in insertion order. \<open>dataMap.set\<close>
  is \<open>AList.update\<close> (replace the value in place, or append a new entry), and
  \<open>dataMap.get(key) || 0\<close> is \<open>getOrZero\<close>.
\<close>

type_synonym dataMap = "(string \<times> int) list"

definition getOrZero :: "dataMap \<Rightarrow> string \<Rightarrow> int" where
  "getOrZero m key = (case map_of m key of None \<Rightarrow> 0 | Some v \<Rightarrow> orZero v)"

text \<open>\<open>Math.max(0, sale.total - (sale.paymentDetails?.discountAmount || 0))\<close>\<close>

definition contribution :: "Sale \<Rightarrow> int" where
  "contribution sale =
     max 0 (total sale - (case discountAmount sale of None \<Rightarrow> 0 | Some d \<Rightarrow> orZero d))"

text \<open>\<open>sales.forEach\<close>: a sale whose date passes the guard of the timeframe is added to the
  bucket of its key. The three branches differ in the key and in the guard.\<close>

definition addSale :: "dates \<Rightarrow> (int \<Rightarrow> string) \<Rightarrow> (int \<Rightarrow> bool) \<Rightarrow> Sale \<Rightarrow> dataMap \<Rightarrow> dataMap" where
  "addSale rt keyOf guard sale m =
     (let saleDate = parse rt (sale_timestamp sale)
      in if guard saleDate
         then AList.update (keyOf saleDate) (getOrZero m (keyOf saleDate) + contribution sale) m
         else m)"

definition aggregate :: "dates \<Rightarrow> (int \<Rightarrow> string) \<Rightarrow> (int \<Rightarrow> bool) \<Rightarrow> Sale list \<Rightarrow> dataMap \<Rightarrow> dataMap" where
  "aggregate rt keyOf guard sales m = fold (addSale rt keyOf guard) sales m"

text \<open>\<open>Array.from(dataMap.entries()).sort(([a], [b]) => a.localeCompare(b)).map(...)\<close>, with
  \<open>localeCompare\<close> on keys (digits and hyphens) read as the lexicographic order of strings.\<close>

definition toPoints :: "(string \<Rightarrow> string) \<Rightarrow> dataMap \<Rightarrow> ChartDataPoint list" where
  "toPoints labelOf m =
     map (\<lambda>(key, rev). \<lparr>label = key, revenue = rev, point_timestamp = key, displayLabel = labelOf key\<rparr>)
         (sort_key fst m)"

text \<open>\<open>earliestSaleDate\<close>: \<open>null\<close> without sales, else the least time value.\<close>

definition earliestSaleDate :: "dates \<Rightarrow> Sale list \<Rightarrow> int option" where
  "earliestSaleDate rt sales =
     (case map (\<lambda>s. parse rt (sale_timestamp s)) sales of
        [] \<Rightarrow> None
      | t # ts \<Rightarrow> Some (fold min ts t))"

text \<open>The hourly buckets: \<open>for (let i = 47; i >= 0; i--)\<close>.\<close>

definition hourBuckets :: "dates \<Rightarrow> int \<Rightarrow> dataMap" where
  "hourBuckets rt now =
     fold (\<lambda>i m. AList.update (hourKey rt (now - int i * 60 * 60 * 1000)) 0 m) (rev [0..<48]) []"

text \<open>
  The daily and monthly buckets: \<open>for (let d = start; d <= end; d = next d) dataMap.set(key d, 0)\<close>.
  The loop ends only if the runtime's dates advance, so its result is optional.
\<close>

partial_function (option) initBuckets ::
  "(int \<Rightarrow> int) \<Rightarrow> (int \<Rightarrow> string) \<Rightarrow> int \<Rightarrow> int \<Rightarrow> dataMap \<Rightarrow> dataMap option" where
  "initBuckets next keyOf d end m =
     (if d \<le> end then initBuckets next keyOf (next d) end (AList.update (keyOf d) 0 m)
      else Some m)"

declare initBuckets.simps [code]

text \<open>\<open>startDate\<close> of the daily branch and \<open>startMonth\<close> of the monthly branch.\<close>

definition startDate :: "dates \<Rightarrow> int \<Rightarrow> Sale list \<Rightarrow> int" where
  "startDate rt now sales =
     (let capStart = now - 365 * 24 * 60 * 60 * 1000;
          candidate = (case earliestSaleDate rt sales of
                         Some e \<Rightarrow> newDate rt (getFullYear rt e) (getMonth rt e) (getDate rt e)
                       | None \<Rightarrow> capStart)
      in max candidate capStart)"

definition startMonth :: "dates \<Rightarrow> int \<Rightarrow> Sale list \<Rightarrow> int" where
  "startMonth rt now sales =
     (let capStartMonth = newDate rt (getFullYear rt now) (getMonth rt now - 35) 1;
          candidateMonth = (case earliestSaleDate rt sales of
                              Some e \<Rightarrow> newDate rt (getFullYear rt e) (getMonth rt e) 1
                            | None \<Rightarrow> capStartMonth)
      in max candidateMonth capStartMonth)"

text \<open>\<open>chartData\<close>, for the current time \<open>now\<close>.\<close>

definition chartData :: "dates \<Rightarrow> int \<Rightarrow> TimeframeType \<Rightarrow> Sale list \<Rightarrow> ChartDataPoint list option" where
  "chartData rt now timeframe sales =
     (case timeframe of
        hourly \<Rightarrow>
          Some (toPoints (hourLabel rt)
                  (aggregate rt (hourKey rt) (\<lambda>saleDate. now - 48 * 60 * 60 * 1000 \<le> saleDate) sales
                     (hourBuckets rt now)))
      | daily \<Rightarrow>
          (case initBuckets (\<lambda>d. setDate rt d (getDate rt d + 1)) (dayKey rt)
                  (startDate rt now sales) now [] of
             None \<Rightarrow> None
           | Some m \<Rightarrow>
               Some (toPoints (dayLabel rt)
                       (aggregate rt (dayKey rt)
                          (\<lambda>saleDate. startDate rt now sales \<le> saleDate \<and> saleDate \<le> now) sales m)))
      | monthly \<Rightarrow>
          (let endMonth = newDate rt (getFullYear rt now) (getMonth rt now) 1
           in case initBuckets (\<lambda>m. setMonth rt m (getMonth rt m + 1)) (monthKey rt)
                     (newDate rt (getFullYear rt (startMonth rt now sales))
                                 (getMonth rt (startMonth rt now sales)) 1)
                     endMonth [] of
                None \<Rightarrow> None
              | Some m \<Rightarrow>
                  Some (toPoints (monthLabel rt)
                          (aggregate rt (monthKey rt)
                             (\<lambda>saleDate. startMonth rt now sales \<le> saleDate \<and> saleDate \<le> now) sales m))))"

text \<open>\<open>totalRevenue = chartData.reduce((sum, item) => sum + item.revenue, 0)\<close>\<close>

definition totalRevenue :: "ChartDataPoint list \<Rightarrow> int" where
  "totalRevenue points = foldl (\<lambda>sum item. sum + revenue item) 0 points"

subsection \<open>Notions used to state the properties of the chart\<close>

text \<open>The bucket key of a sale and the guard it has to pass, by timeframe.\<close>

definition saleKey :: "dates \<Rightarrow> TimeframeType \<Rightarrow> Sale \<Rightarrow> string" where
  "saleKey rt timeframe sale =
     (case timeframe of
        hourly \<Rightarrow> hourKey rt (parse rt (sale_timestamp sale))
      | daily \<Rightarrow> dayKey rt (parse rt (sale_timestamp sale))
      | monthly \<Rightarrow> monthKey rt (parse rt (sale_timestamp sale)))"

definition inWindow :: "dates \<Rightarrow> int \<Rightarrow> TimeframeType \<Rightarrow> Sale list \<Rightarrow> Sale \<Rightarrow> bool" where
  "inWindow rt now timeframe sales sale =
     (let saleDate = parse rt (sale_timestamp sale)
      in case timeframe of
           hourly \<Rightarrow> now - 48 * 60 * 60 * 1000 \<le> saleDate
         | daily \<Rightarrow> startDate rt now sales \<le> saleDate \<and> saleDate \<le> now
         | monthly \<Rightarrow> startMonth rt now sales \<le> saleDate \<and> saleDate \<le> now)"

text \<open>The loops over days and months end when a step of the runtime moves a date forward.\<close>

definition advances :: "dates \<Rightarrow> TimeframeType \<Rightarrow> bool" where
  "advances rt timeframe =
     (case timeframe of
        hourly \<Rightarrow> True
      | daily \<Rightarrow> (\<forall>d. d < setDate rt d (getDate rt d + 1))
      | monthly \<Rightarrow> (\<forall>m. m < setMonth rt m (getMonth rt m + 1)))"

text \<open>Buckets with distinct keys that all hold 0, as the three loops leave them.\<close>

definition zeroMap :: "dataMap \<Rightarrow> bool" where
  "zeroMap m = (distinct (map fst m) \<and> list_all (\<lambda>(k, v). v = 0) m)"

text \<open>
  A concrete runtime: the proleptic Gregorian calendar in UTC. \<open>civil\<close> turns a day number
  (days since 1970-01-01) into year, month (1 to 12) and day; \<open>daysFromCivil\<close> is its
  inverse on valid dates. \<open>parseIso\<close> reads \<open>YYYY-MM-DDTHH:MM:SS.sssZ\<close>.
\<close>

definition civil :: "int \<Rightarrow> int \<times> int \<times> int" where
  "civil days =
     (let z = days + 719468;
          era = z div 146097;
          doe = z - era * 146097;
          yoe = (doe - doe div 1460 + doe div 36524 - doe div 146096) div 365;
          doy = doe - (365 * yoe + yoe div 4 - yoe div 100);
          mp = (5 * doy + 2) div 153;
          d = doy - (153 * mp + 2) div 5 + 1;
          m = (if mp < 10 then mp + 3 else mp - 9)
      in (yoe + era * 400 + (if m \<le> 2 then 1 else 0), m, d))"

definition daysFromCivil :: "int \<Rightarrow> int \<Rightarrow> int \<Rightarrow> int" where
  "daysFromCivil y m d =
     (let y' = (if m \<le> 2 then y - 1 else y);
          era = y' div 400;
          yoe = y' - era * 400;
          doy = (153 * (if m > 2 then m - 3 else m + 9) + 2) div 5 + d - 1;
          doe = yoe * 365 + yoe div 4 - yoe div 100 + doy
      in era * 146097 + doe - 719468)"

definition parseNat :: "string \<Rightarrow> int" where
  "parseNat s = foldl (\<lambda>a c. 10 * a + (int (of_char c) - 48)) 0 s"

definition parseIso :: "string \<Rightarrow> int" where
  "parseIso s =
     daysFromCivil (parseNat (take 4 s)) (parseNat (take 2 (drop 5 s))) (parseNat (take 2 (drop 8 s)))
       * 86400000
     + parseNat (take 2 (drop 11 s)) * 3600000 + parseNat (take 2 (drop 14 s)) * 60000
     + parseNat (take 2 (drop 17 s)) * 1000 + parseNat (take 3 (drop 20 s))"

definition monthNames :: "string list" where
  "monthNames = [''Jan'', ''Feb'', ''Mar'', ''Apr'', ''May'', ''Jun'',
                 ''Jul'', ''Aug'', ''Sep'', ''Oct'', ''Nov'', ''Dec'']"

definition utcNewDate :: "int \<Rightarrow> int \<Rightarrow> int \<Rightarrow> int" where
  "utcNewDate y m d = (daysFromCivil (y + m div 12) (m mod 12 + 1) 1 + d - 1) * 86400000"

definition utcDates :: dates where
  "utcDates =
     \<lparr>parse = parseIso,
      getFullYear = (\<lambda>t. fst (civil (t div 86400000))),
      getMonth = (\<lambda>t. fst (snd (civil (t div 86400000))) - 1),
      getDate = (\<lambda>t. snd (snd (civil (t div 86400000)))),
      getHours = (\<lambda>t. (t mod 86400000) div 3600000),
      newDate = utcNewDate,
      setDate = (\<lambda>t d. t + (d - snd (snd (civil (t div 86400000)))) * 86400000),
      setMonth = (\<lambda>t m. utcNewDate (fst (civil (t div 86400000))) m (snd (snd (civil (t div 86400000))))
                         + t mod 86400000),
      hourLabel = (\<lambda>key. drop 11 key @ '':00''),
      dayLabel = (\<lambda>key. monthNames ! nat (parseNat (take 2 (drop 5 key)) - 1) @ '' ''
                         @ numToString (parseNat (drop 8 key))),
      monthLabel = (\<lambda>key. monthNames ! nat (parseNat (take 2 (drop 5 key)) - 1) @ '' ''
                           @ take 2 (drop 2 key))\<rparr>"

text \<open>A sale made a week before noon of 1 January 2024, and one made that morning.\<close>

definition oldSale :: Sale where
  "oldSale = \<lparr>sale_timestamp = ''2023-12-25T10:00:00.000Z'', total = 500, discountAmount = None\<rparr>"

definition morningSale :: Sale where
  "morningSale = \<lparr>sale_timestamp = ''2024-01-01T09:30:00.000Z'', total = 300, discountAmount = Some 50\<rparr>"

section \<open>Properties of the sales page\<close>

text \<open>Unfolding a checkout on a concrete state.\<close>

lemmas run_simps = handleCheckout_def processOnlineSale_def processOfflineSale_def Let_def
  clearCart_def createOfflineSale_def findCustomer_def noCustomerSelected_def till_def quietEnv_def
  secondInsertFails_def

lemma onlineLoop_frame:
  "onlineLoop e uid pm cid c i items s = (r, s') \<Longrightarrow>
     cart s' = cart s \<and> selectedCustomerId s' = selectedCustomerId s \<and> paymentMethod s' = paymentMethod s
     \<and> isProcessingCheckout s' = isProcessingCheckout s \<and> toasts s' = toasts s \<and> user s' = user s
     \<and> customers s' = customers s \<and> isOnline s' = isOnline s \<and> pending_queue s' = pending_queue s"
proof (induction items arbitrary: i s)
  case Nil
  then show ?case by simp
next
  case (Cons item rest)
  then show ?case
    by (auto simp: Let_def split: option.splits if_splits)
qed

lemma onlineLoop_success_sales:
  "onlineLoop e uid pm cid c i items s = (None, s') \<Longrightarrow>
     sales_table s' = sales_table s @ onlineRecords e uid pm cid c i items"
proof (induction items arbitrary: i s)
  case Nil
  then show ?case by (simp add: onlineRecords_def)
next
  case (Cons item rest)
  then show ?case
    by (auto simp: Let_def onlineRecords_def split: option.splits if_splits)
qed

lemma onlineLoop_success_updates:
  "onlineLoop e uid pm cid c i items s = (None, s') \<Longrightarrow>
     customer_updates s' = customer_updates s @ debtUpdates e pm c i items"
proof (induction items arbitrary: i s)
  case Nil
  then show ?case by (simp add: debtUpdates_def split: option.splits)
next
  case (Cons item rest)
  then show ?case
    by (auto simp: Let_def debtUpdates_def split: option.splits if_splits)
qed

lemma onlineLoop_success_log:
  "onlineLoop e uid pm cid c i items s = (None, s') \<Longrightarrow>
     remote_log s' = remote_log s @ lineRequests e uid pm cid c i items"
proof (induction items arbitrary: i s)
  case Nil
  then show ?case by (simp add: lineRequests_def)
next
  case (Cons item rest)
  then show ?case
    by (auto simp: Let_def lineRequests_def split: option.splits if_splits)
qed

lemma onlineLoop_updates_any:
  "onlineLoop e uid pm cid c i items s = (r, s') \<Longrightarrow>
     \<exists>n\<le>length items. customer_updates s' = customer_updates s @ debtUpdates e pm c i (take n items)"
proof (induction items arbitrary: i s)
  case Nil
  then show ?case by (simp add: debtUpdates_def split: option.splits)
next
  case (Cons item rest)
  show ?case
  proof (cases "sale_insert_error e i")
    case (Some msg)
    with Cons.prems have "customer_updates s' = customer_updates s" by auto
    then have "customer_updates s' = customer_updates s @ debtUpdates e pm c i (take 0 (item # rest))"
      by (simp add: debtUpdates_def split: option.splits)
    then show ?thesis by blast
  next
    case None
    show ?thesis
    proof (cases "pm = debt \<and> c \<noteq> None \<and> update_customer_error e i \<noteq> None")
      case True
      with None Cons.prems
      have "customer_updates s' = customer_updates s @ debtUpdates e pm c i (take 1 (item # rest))"
        by (auto simp: Let_def debtUpdates_def)
      moreover have "1 \<le> length (item # rest)" by simp
      ultimately show ?thesis by blast
    next
      case False
      define s5 where "s5 = snd (SOME x::unit \<times> state. True)"
      from False None Cons.prems obtain t where
        t: "onlineLoop e uid pm cid c (Suc i) rest t = (r, s')"
           "customer_updates t = customer_updates s @ debtUpdates e pm c i [item]"
        by (auto simp: Let_def debtUpdates_def split: option.splits if_splits)
      from Cons.IH[OF t(1)] obtain n where
        n: "n \<le> length rest" "customer_updates s' = customer_updates t @ debtUpdates e pm c (Suc i) (take n rest)"
        by blast
      have "customer_updates s' = customer_updates s @ debtUpdates e pm c i (take (Suc n) (item # rest))"
        using n(2) t(2) by (simp add: debtUpdates_def split: option.splits)
      moreover have "Suc n \<le> length (item # rest)" using n(1) by simp
      ultimately show ?thesis by blast
    qed
  qed
qed

lemma onlineLoop_log_any:
  "onlineLoop e uid pm cid c i items s = (r, s') \<Longrightarrow>
     \<exists>rs. remote_log s' = remote_log s @ rs \<and>
       (\<forall>p v. UpdateStock p v \<in> set rs \<longrightarrow>
          (\<exists>item\<in>set items. p = prod_id item \<and> v = max 0 (currentStock item - quantity item)))"
proof (induction items arbitrary: i s)
  case Nil
  then show ?case by simp
next
  case (Cons item rest)
  show ?case
  proof (cases "sale_insert_error e i")
    case (Some msg)
    with Cons.prems show ?thesis by auto
  next
    case None
    show ?thesis
    proof (cases "pm = debt \<and> c \<noteq> None \<and> update_customer_error e i \<noteq> None")
      case True
      with None Cons.prems show ?thesis by (auto simp: Let_def split: option.splits)
    next
      case False
      from False None Cons.prems obtain t where
        t: "onlineLoop e uid pm cid c (Suc i) rest t = (r, s')"
           "remote_log t = remote_log s @ [InsertSale (saleData uid pm cid c (sale_time e i) True item),
                 UpdateStock (prod_id item) (max 0 (currentStock item - quantity item))]"
        by (auto simp: Let_def split: option.splits if_splits)
      from Cons.IH[OF t(1)] obtain rs where
        rs: "remote_log s' = remote_log t @ rs"
            "\<forall>p v. UpdateStock p v \<in> set rs \<longrightarrow>
               (\<exists>item\<in>set rest. p = prod_id item \<and> v = max 0 (currentStock item - quantity item))"
        by blast
      show ?thesis using rs t(2) by auto
    qed
  qed
qed

lemma onlineLoop_sales_any:
  "onlineLoop e uid pm cid c i items s = (r, s') \<Longrightarrow>
     \<exists>n\<le>length items. sales_table s' = sales_table s @ onlineRecords e uid pm cid c i (take n items)"
proof (induction items arbitrary: i s)
  case Nil
  then show ?case by (simp add: onlineRecords_def)
next
  case (Cons item rest)
  show ?case
  proof (cases "sale_insert_error e i")
    case (Some msg)
    with Cons.prems have "sales_table s' = sales_table s @ onlineRecords e uid pm cid c i (take 0 (item # rest))"
      by (auto simp: onlineRecords_def)
    then show ?thesis by blast
  next
    case None
    show ?thesis
    proof (cases "pm = debt \<and> c \<noteq> None \<and> update_customer_error e i \<noteq> None")
      case True
      with None Cons.prems
      have "sales_table s' = sales_table s @ onlineRecords e uid pm cid c i (take 1 (item # rest))"
        by (auto simp: Let_def onlineRecords_def)
      moreover have "1 \<le> length (item # rest)" by simp
      ultimately show ?thesis by blast
    next
      case False
      from False None Cons.prems obtain t where
        t: "onlineLoop e uid pm cid c (Suc i) rest t = (r, s')"
           "sales_table t = sales_table s @ onlineRecords e uid pm cid c i [item]"
        by (auto simp: Let_def onlineRecords_def split: option.splits if_splits)
      from Cons.IH[OF t(1)] obtain n where
        n: "n \<le> length rest" "sales_table s' = sales_table t @ onlineRecords e uid pm cid c (Suc i) (take n rest)"
        by blast
      have "sales_table s' = sales_table s @ onlineRecords e uid pm cid c i (take (Suc n) (item # rest))"
        using n(2) t(2) by (simp add: onlineRecords_def)
      moreover have "Suc n \<le> length (item # rest)" using n(1) by simp
      ultimately show ?thesis by blast
    qed
  qed
qed

lemma offlineLoop_eq:
  "offlineLoop e uid pm cid c i items s =
     s\<lparr>pending_queue := pending_queue s @ offlineRecords e uid pm cid c i items\<rparr>"
proof (induction items arbitrary: i s)
  case Nil
  then show ?case by (simp add: offlineRecords_def)
next
  case (Cons item rest)
  then show ?case by (simp add: offlineRecords_def createOfflineSale_def)
qed

lemma onlineLoop_step:
  assumes "sale_insert_error e i = None"
    and "pm = debt \<and> c \<noteq> None \<longrightarrow> update_customer_error e i = None"
  shows "onlineLoop e uid pm cid c i (item # rest) s =
           onlineLoop e uid pm cid c (Suc i) rest (lineDone e uid pm cid c i item s)"
proof (cases c)
  case None
  then show ?thesis using assms
    by (simp add: Let_def lineDone_def lineRequests_def onlineRecords_def debtUpdates_def)
next
  case (Some cust)
  then show ?thesis using assms
    by (cases "pm = debt")
       (simp_all add: Let_def lineDone_def lineRequests_def onlineRecords_def debtUpdates_def)
qed


lemma length_onlineRecords: "length (onlineRecords e uid pm cid c i items) = length items"
  by (simp add: onlineRecords_def)

lemma length_offlineRecords: "length (offlineRecords e uid pm cid c i items) = length items"
  by (simp add: offlineRecords_def)

lemma nth_onlineRecords:
  "k < length items \<Longrightarrow>
     onlineRecords e uid pm cid c i items ! k = saleData uid pm cid c (sale_time e (i + k)) True (items ! k)"
  by (simp add: onlineRecords_def nth_enumerate_eq)

lemma nth_offlineRecords:
  "k < length items \<Longrightarrow>
     offlineRecords e uid pm cid c i items ! k = saleData uid pm cid c (sale_time e (i + k)) False (items ! k)"
  by (simp add: offlineRecords_def nth_enumerate_eq)

lemma findCustomer_processing [simp]:
  "findCustomer (s\<lparr>isProcessingCheckout := b\<rparr>) = findCustomer s"
  by (simp add: findCustomer_def split: option.splits)

text \<open>The outcome of a checkout that got past the two early returns.\<close>

lemma handleCheckout_offline:
  assumes "cart s \<noteq> []" "\<not> (paymentMethod s = debt \<and> noCustomerSelected (selectedCustomerId s))"
    "\<not> isOnline s" "user s = Some uid"
  shows "handleCheckout e s =
     s\<lparr>cart := [], selectedCustomerId := None, paymentMethod := cash, isProcessingCheckout := False,
       toasts := toasts s @ [saleCompletedToast False],
       pending_queue := pending_queue s @
         offlineRecords e uid (paymentMethod s) (selectedCustomerId s) (findCustomer s) 0 (cart s)\<rparr>"
  using assms
  by (intro state.equality)
     (auto simp: handleCheckout_def Let_def processOfflineSale_def offlineLoop_eq clearCart_def)

lemma handleCheckout_no_user:
  assumes "cart s \<noteq> []" "\<not> (paymentMethod s = debt \<and> noCustomerSelected (selectedCustomerId s))"
    "user s = None"
  shows "handleCheckout e s =
     s\<lparr>console := console s @ [''Checkout error: User not authenticated''],
       toasts := toasts s @ [checkoutErrorToast], isProcessingCheckout := False\<rparr>"
  using assms
  by (intro state.equality)
     (auto simp: handleCheckout_def Let_def processOfflineSale_def processOnlineSale_def)

lemma handleCheckout_online:
  assumes "cart s \<noteq> []" "\<not> (paymentMethod s = debt \<and> noCustomerSelected (selectedCustomerId s))"
    "isOnline s" "user s = Some uid"
    "onlineLoop e uid (paymentMethod s) (selectedCustomerId s) (findCustomer s) 0 (cart s)
       (s\<lparr>isProcessingCheckout := True\<rparr>) = (r, s2)"
  shows "handleCheckout e s =
     (case r of
        None \<Rightarrow> s2\<lparr>toasts := toasts s2 @ [saleCompletedToast True], cart := [],
                   selectedCustomerId := None, paymentMethod := cash, isProcessingCheckout := False\<rparr>
      | Some err \<Rightarrow> s2\<lparr>console := console s2 @ [''Checkout error: '' @ err],
                      toasts := toasts s2 @ [checkoutErrorToast], isProcessingCheckout := False\<rparr>)"
  using assms
  by (intro state.equality)
     (auto simp: handleCheckout_def Let_def processOnlineSale_def clearCart_def split: option.splits)


lemma stockRequests_append: "stockRequests (xs @ ys) = stockRequests xs @ stockRequests ys"
  by (induction xs rule: stockRequests.induct) simp_all


lemma stockRequests_lineRequests:
  "stockRequests (lineRequests e uid pm cid c i items) =
     map (\<lambda>item. (prod_id item, max 0 (currentStock item - quantity item))) items"
  by (induction items arbitrary: i) (simp_all add: lineRequests_def)

lemma orZero_id [simp]: "orZero x = x"
  by (simp add: orZero_def)

lemma toast_distinct [simp]:
  "saleCompletedToast b \<noteq> checkoutErrorToast" "saleCompletedToast b \<noteq> customerRequiredToast"
  "checkoutErrorToast \<noteq> saleCompletedToast b" "customerRequiredToast \<noteq> saleCompletedToast b"
  by (simp_all add: saleCompletedToast_def checkoutErrorToast_def customerRequiredToast_def)

lemma saleData_fields [simp]:
  "product_id (saleData uid pm cid c ts b item) = prod_id item"
  "sale_quantity (saleData uid pm cid c ts b item) = quantity item"
  "selling_price (saleData uid pm cid c ts b item) = sellingPrice item"
  "cost_price (saleData uid pm cid c ts b item) = costPrice item"
  "total_amount (saleData uid pm cid c ts b item) = sellingPrice item * quantity item"
  "profit (saleData uid pm cid c ts b item) = (sellingPrice item - costPrice item) * quantity item"
  "synced (saleData uid pm cid c ts b item) = b"
  "payment_method (saleData uid pm cid c ts b item) = pm"
  "customer_id (saleData uid pm cid c ts b item) = cid"
  by (simp_all add: saleData_def)

lemma onlineLoop_all_succeed:
  assumes "\<forall>j<length items. sale_insert_error e (i + j) = None \<and>
               (pm = debt \<and> c \<noteq> None \<longrightarrow> update_customer_error e (i + j) = None)"
  shows "fst (onlineLoop e uid pm cid c i items s) = None"
  using assms
proof (induction items arbitrary: i s)
  case Nil
  then show ?case by simp
next
  case (Cons item rest)
  from Cons.prems have here: "sale_insert_error e i = None"
    "pm = debt \<and> c \<noteq> None \<longrightarrow> update_customer_error e i = None"
    by force+
  have later: "\<forall>j<length rest. sale_insert_error e (Suc i + j) = None \<and>
               (pm = debt \<and> c \<noteq> None \<longrightarrow> update_customer_error e (Suc i + j) = None)"
  proof (intro allI impI)
    fix j assume "j < length rest"
    then have "Suc j < length (item # rest)" by simp
    with Cons.prems have "sale_insert_error e (i + Suc j) = None \<and>
               (pm = debt \<and> c \<noteq> None \<longrightarrow> update_customer_error e (i + Suc j) = None)" by blast
    then show "sale_insert_error e (Suc i + j) = None \<and>
               (pm = debt \<and> c \<noteq> None \<longrightarrow> update_customer_error e (Suc i + j) = None)" by simp
  qed
  show ?case
    unfolding onlineLoop_step[OF here] by (rule Cons.IH[OF later])
qed

lemma checkout_completes:
  assumes "cart s \<noteq> []"
    and "\<not> (paymentMethod s = debt \<and> noCustomerSelected (selectedCustomerId s))"
    and "user s \<noteq> None"
    and "isOnline s \<longrightarrow> (\<forall>j<length (cart s). sale_insert_error e j = None \<and>
            (paymentMethod s = debt \<and> findCustomer s \<noteq> None \<longrightarrow> update_customer_error e j = None))"
  shows "toasts (handleCheckout e s) = toasts s @ [saleCompletedToast (isOnline s)]"
proof -
  from assms(3) obtain uid where uid: "user s = Some uid" by blast
  show ?thesis
  proof (cases "isOnline s")
    case False
    from handleCheckout_offline[OF assms(1) assms(2) False uid, of e] False show ?thesis by simp
  next
    case True
    obtain r s2 where loop:
      "onlineLoop e uid (paymentMethod s) (selectedCustomerId s) (findCustomer s) 0 (cart s)
         (s\<lparr>isProcessingCheckout := True\<rparr>) = (r, s2)"
      by (cases "onlineLoop e uid (paymentMethod s) (selectedCustomerId s) (findCustomer s) 0 (cart s)
         (s\<lparr>isProcessingCheckout := True\<rparr>)")
    from assms(4) True have "\<forall>j<length (cart s). sale_insert_error e (0 + j) = None \<and>
            (paymentMethod s = debt \<and> findCustomer s \<noteq> None \<longrightarrow> update_customer_error e (0 + j) = None)"
      by simp
    from onlineLoop_all_succeed[OF this, of uid "selectedCustomerId s" "s\<lparr>isProcessingCheckout := True\<rparr>"] loop
    have r: "r = None" by simp
    from handleCheckout_online[OF assms(1) assms(2) True uid loop] onlineLoop_frame[OF loop] r True
    show ?thesis by simp
  qed
qed

text \<open>What a completed checkout has created.\<close>

lemma completed_checkout_records:
  assumes "cart s \<noteq> []"
    and "toasts (handleCheckout e s) = toasts s @ [saleCompletedToast (isOnline s)]"
  shows "\<exists>recs. length recs = length (cart s)
     \<and> (if isOnline s
        then sales_table (handleCheckout e s) = sales_table s @ recs
           \<and> pending_queue (handleCheckout e s) = pending_queue s
        else pending_queue (handleCheckout e s) = pending_queue s @ recs
           \<and> sales_table (handleCheckout e s) = sales_table s)
     \<and> (\<forall>k<length (cart s).
          product_id (recs ! k) = prod_id (cart s ! k)
        \<and> sale_quantity (recs ! k) = quantity (cart s ! k)
        \<and> selling_price (recs ! k) = sellingPrice (cart s ! k)
        \<and> cost_price (recs ! k) = costPrice (cart s ! k)
        \<and> total_amount (recs ! k) = selling_price (recs ! k) * sale_quantity (recs ! k)
        \<and> profit (recs ! k) = (selling_price (recs ! k) - cost_price (recs ! k)) * sale_quantity (recs ! k)
        \<and> payment_method (recs ! k) = paymentMethod s
        \<and> synced (recs ! k) = isOnline s)"
proof -
  have valid: "\<not> (paymentMethod s = debt \<and> noCustomerSelected (selectedCustomerId s))"
  proof
    assume "paymentMethod s = debt \<and> noCustomerSelected (selectedCustomerId s)"
    with assms show False by (simp add: handleCheckout_def)
  qed
  obtain uid where uid: "user s = Some uid"
  proof (cases "user s")
    case None
    from handleCheckout_no_user[OF assms(1) valid None, of e] assms(2) show ?thesis by simp
  next
    case (Some u)
    then show ?thesis using that by blast
  qed
  show ?thesis
  proof (cases "isOnline s")
    case False
    let ?recs = "offlineRecords e uid (paymentMethod s) (selectedCustomerId s) (findCustomer s) 0 (cart s)"
    have "handleCheckout e s =
       s\<lparr>cart := [], selectedCustomerId := None, paymentMethod := cash, isProcessingCheckout := False,
         toasts := toasts s @ [saleCompletedToast False],
         pending_queue := pending_queue s @ ?recs\<rparr>"
      by (rule handleCheckout_offline[OF assms(1) valid False uid])
    then have "length ?recs = length (cart s)
       \<and> pending_queue (handleCheckout e s) = pending_queue s @ ?recs
       \<and> sales_table (handleCheckout e s) = sales_table s"
      by (simp add: length_offlineRecords)
    moreover have "\<forall>k<length (cart s).
          product_id (?recs ! k) = prod_id (cart s ! k)
        \<and> sale_quantity (?recs ! k) = quantity (cart s ! k)
        \<and> selling_price (?recs ! k) = sellingPrice (cart s ! k)
        \<and> cost_price (?recs ! k) = costPrice (cart s ! k)
        \<and> total_amount (?recs ! k) = selling_price (?recs ! k) * sale_quantity (?recs ! k)
        \<and> profit (?recs ! k) = (selling_price (?recs ! k) - cost_price (?recs ! k)) * sale_quantity (?recs ! k)
        \<and> payment_method (?recs ! k) = paymentMethod s
        \<and> synced (?recs ! k) = isOnline s"
      using False by (simp add: nth_offlineRecords)
    ultimately show ?thesis using False by (intro exI[of _ ?recs]) simp
  next
    case True
    let ?recs = "onlineRecords e uid (paymentMethod s) (selectedCustomerId s) (findCustomer s) 0 (cart s)"
    obtain r s2 where loop:
      "onlineLoop e uid (paymentMethod s) (selectedCustomerId s) (findCustomer s) 0 (cart s)
         (s\<lparr>isProcessingCheckout := True\<rparr>) = (r, s2)"
      by (cases "onlineLoop e uid (paymentMethod s) (selectedCustomerId s) (findCustomer s) 0 (cart s)
         (s\<lparr>isProcessingCheckout := True\<rparr>)")
    note hc = handleCheckout_online[OF assms(1) valid True uid loop]
    note frame = onlineLoop_frame[OF loop]
    have r: "r = None"
    proof (cases r)
      case (Some err)
      with hc frame assms(2) show ?thesis by simp
    qed simp
    from onlineLoop_success_sales[OF loop[unfolded r]]
    have "sales_table s2 = sales_table s @ ?recs" by simp
    with hc r frame have "length ?recs = length (cart s)
       \<and> sales_table (handleCheckout e s) = sales_table s @ ?recs
       \<and> pending_queue (handleCheckout e s) = pending_queue s"
      by (simp add: length_onlineRecords)
    moreover have "\<forall>k<length (cart s).
          product_id (?recs ! k) = prod_id (cart s ! k)
        \<and> sale_quantity (?recs ! k) = quantity (cart s ! k)
        \<and> selling_price (?recs ! k) = sellingPrice (cart s ! k)
        \<and> cost_price (?recs ! k) = costPrice (cart s ! k)
        \<and> total_amount (?recs ! k) = selling_price (?recs ! k) * sale_quantity (?recs ! k)
        \<and> profit (?recs ! k) = (selling_price (?recs ! k) - cost_price (?recs ! k)) * sale_quantity (?recs ! k)
        \<and> payment_method (?recs ! k) = paymentMethod s
        \<and> synced (?recs ! k) = isOnline s"
      using True by (simp add: nth_onlineRecords)
    ultimately show ?thesis using True by (intro exI[of _ ?recs]) simp
  qed
qed

text \<open>
Claim C1. A checkout of a non-empty cart completes (the toast shown is "Sale Completed!")
  whenever it passes validation, a user is signed in and, online, no insert is rejected and
  no customer update throws; offline nothing else is needed. Every checkout that completes
  has created exactly one sale record per cart line, in cart order: online the records are
  the rows added to the remote table, offline the records added to the pending queue.
  Record \<open>k\<close> carries the product, quantity and prices of line \<open>k\<close>, its \<open>total_amount\<close>
  is selling price times quantity and its \<open>profit\<close> is (selling price - cost price) times
  quantity. This holds for every payment method, so in particular for cash and mobile money.
\<close>

theorem checkout_one_record_per_line:
  assumes "cart s \<noteq> []"
  shows "(\<not> (paymentMethod s = debt \<and> noCustomerSelected (selectedCustomerId s))
        \<and> user s \<noteq> None
        \<and> (isOnline s \<longrightarrow> (\<forall>j<length (cart s). sale_insert_error e j = None \<and>
               (paymentMethod s = debt \<and> findCustomer s \<noteq> None \<longrightarrow> update_customer_error e j = None)))
       \<longrightarrow> toasts (handleCheckout e s) = toasts s @ [saleCompletedToast (isOnline s)])
   \<and> (toasts (handleCheckout e s) = toasts s @ [saleCompletedToast (isOnline s)] \<longrightarrow>
        (\<exists>recs. length recs = length (cart s)
     \<and> (if isOnline s
        then sales_table (handleCheckout e s) = sales_table s @ recs
           \<and> pending_queue (handleCheckout e s) = pending_queue s
        else pending_queue (handleCheckout e s) = pending_queue s @ recs
           \<and> sales_table (handleCheckout e s) = sales_table s)
     \<and> (\<forall>k<length (cart s).
          product_id (recs ! k) = prod_id (cart s ! k)
        \<and> sale_quantity (recs ! k) = quantity (cart s ! k)
        \<and> selling_price (recs ! k) = sellingPrice (cart s ! k)
        \<and> cost_price (recs ! k) = costPrice (cart s ! k)
        \<and> total_amount (recs ! k) = selling_price (recs ! k) * sale_quantity (recs ! k)
        \<and> profit (recs ! k) = (selling_price (recs ! k) - cost_price (recs ! k)) * sale_quantity (recs ! k)
        \<and> payment_method (recs ! k) = paymentMethod s
        \<and> synced (recs ! k) = isOnline s)))"
  using checkout_completes[OF assms, of e] completed_checkout_records[OF assms, of e] by blast

theorem checkout_one_record_per_line_witness:
  "cart (till True (Some ''u1'') cash None) \<noteq> []
   \<and> isOnline (till True (Some ''u1'') cash None)
   \<and> user (till True (Some ''u1'') cash None) \<noteq> None
   \<and> paymentMethod (till True (Some ''u1'') cash None) \<noteq> debt
   \<and> sale_insert_error quietEnv 0 = None \<and> sale_insert_error quietEnv 1 = None
   \<and> toasts (handleCheckout quietEnv (till True (Some ''u1'') cash None)) = [saleCompletedToast True]
   \<and> length (sales_table (handleCheckout quietEnv (till True (Some ''u1'') cash None))) = 2
   \<and> total_amount (sales_table (handleCheckout quietEnv (till True (Some ''u1'') cash None)) ! 0) = 200
   \<and> profit (sales_table (handleCheckout quietEnv (till True (Some ''u1'') cash None)) ! 0) = 80
   \<and> cart (till False (Some ''u1'') mpesa None) \<noteq> []
   \<and> \<not> isOnline (till False (Some ''u1'') mpesa None)
   \<and> user (till False (Some ''u1'') mpesa None) \<noteq> None
   \<and> paymentMethod (till False (Some ''u1'') mpesa None) \<noteq> debt
   \<and> toasts (handleCheckout quietEnv (till False (Some ''u1'') mpesa None)) = [saleCompletedToast False]
   \<and> length (pending_queue (handleCheckout quietEnv (till False (Some ''u1'') mpesa None))) = 2
   \<and> total_amount (pending_queue (handleCheckout quietEnv (till False (Some ''u1'') mpesa None)) ! 1) = 120
   \<and> profit (pending_queue (handleCheckout quietEnv (till False (Some ''u1'') mpesa None)) ! 1) = 45
   \<and> \<not> synced (pending_queue (handleCheckout quietEnv (till False (Some ''u1'') mpesa None)) ! 1)"
proof -
  let ?on = "till True (Some ''u1'') cash None" and ?off = "till False (Some ''u1'') mpesa None"
  have on: "cart ?on \<noteq> []" "isOnline ?on" "user ?on \<noteq> None" "paymentMethod ?on \<noteq> debt"
    and on_vals: "toasts ?on = []" "sales_table ?on = []" "length (cart ?on) = 2"
      "sellingPrice (cart ?on ! 0) = 100" "costPrice (cart ?on ! 0) = 60" "quantity (cart ?on ! 0) = 2"
    by (simp_all add: till_def sugar_def)
  have off: "cart ?off \<noteq> []" "\<not> isOnline ?off" "user ?off \<noteq> None" "paymentMethod ?off \<noteq> debt"
    and off_vals: "toasts ?off = []" "pending_queue ?off = []" "length (cart ?off) = 2"
      "sellingPrice (cart ?off ! 1) = 40" "costPrice (cart ?off ! 1) = 25" "quantity (cart ?off ! 1) = 3"
    by (simp_all add: till_def soap_def)
  have env: "sale_insert_error quietEnv 0 = None" "sale_insert_error quietEnv 1 = None"
    "\<forall>j<length (cart ?on). sale_insert_error quietEnv j = None \<and>
        (paymentMethod ?on = debt \<and> findCustomer ?on \<noteq> None \<longrightarrow> update_customer_error quietEnv j = None)"
    by (simp_all add: quietEnv_def)
  note th_on = checkout_one_record_per_line[OF on(1), of quietEnv]
  note th_off = checkout_one_record_per_line[OF off(1), of quietEnv]
  from th_on[THEN conjunct1] on env(3)
  have done_on: "toasts (handleCheckout quietEnv ?on) = toasts ?on @ [saleCompletedToast (isOnline ?on)]"
    by blast
  from th_on[THEN conjunct2, rule_format, OF done_on] on(2) on_vals obtain recs where
    "length recs = 2" "sales_table (handleCheckout quietEnv ?on) = recs"
    "total_amount (recs ! 0) = 200" "profit (recs ! 0) = 80"
    by auto
  then have a: "length (sales_table (handleCheckout quietEnv ?on)) = 2"
    "total_amount (sales_table (handleCheckout quietEnv ?on) ! 0) = 200"
    "profit (sales_table (handleCheckout quietEnv ?on) ! 0) = 80"
    by simp_all
  from th_off[THEN conjunct1] off
  have done_off: "toasts (handleCheckout quietEnv ?off) = toasts ?off @ [saleCompletedToast (isOnline ?off)]"
    by blast
  from th_off[THEN conjunct2, rule_format, OF done_off] off(2) off_vals obtain recs' where
    "length recs' = 2" "pending_queue (handleCheckout quietEnv ?off) = recs'"
    "total_amount (recs' ! 1) = 120" "profit (recs' ! 1) = 45" "\<not> synced (recs' ! 1)"
    by auto
  then have b: "length (pending_queue (handleCheckout quietEnv ?off)) = 2"
    "total_amount (pending_queue (handleCheckout quietEnv ?off) ! 1) = 120"
    "profit (pending_queue (handleCheckout quietEnv ?off) ! 1) = 45"
    "\<not> synced (pending_queue (handleCheckout quietEnv ?off) ! 1)"
    by simp_all
  have t_on: "toasts (handleCheckout quietEnv ?on) = [saleCompletedToast True]"
    using done_on on(2) on_vals(1) by simp
  have t_off: "toasts (handleCheckout quietEnv ?off) = [saleCompletedToast False]"
    using done_off off(2) off_vals(1) by simp
  show ?thesis
    by (intro conjI on env(1,2) t_on a off t_off b)
qed

text \<open>
Claim C2. With a non-empty cart, payment method debt and no customer selected,
  \<open>handleCheckout\<close> only shows the toast "Customer Required": no sale record is created
  remotely or locally, no request is issued, no customer is updated, and the cart, the
  customer selection, the payment method and the busy flag are what they were.
\<close>

theorem debt_without_customer_rejected:
  assumes "cart s \<noteq> []" and "paymentMethod s = debt" and "noCustomerSelected (selectedCustomerId s)"
  shows "handleCheckout e s = s\<lparr>toasts := toasts s @ [customerRequiredToast]\<rparr>
     \<and> sales_table (handleCheckout e s) = sales_table s
     \<and> pending_queue (handleCheckout e s) = pending_queue s
     \<and> remote_log (handleCheckout e s) = remote_log s
     \<and> customer_updates (handleCheckout e s) = customer_updates s
     \<and> cart (handleCheckout e s) = cart s
     \<and> selectedCustomerId (handleCheckout e s) = selectedCustomerId s
     \<and> paymentMethod (handleCheckout e s) = paymentMethod s
     \<and> isProcessingCheckout (handleCheckout e s) = isProcessingCheckout s"
  using assms by (simp add: handleCheckout_def)

theorem debt_without_customer_rejected_witness:
  "cart (till True (Some ''u1'') debt None) \<noteq> []
   \<and> paymentMethod (till True (Some ''u1'') debt None) = debt
   \<and> noCustomerSelected (selectedCustomerId (till True (Some ''u1'') debt None))
   \<and> sales_table (handleCheckout quietEnv (till True (Some ''u1'') debt None)) = []
   \<and> toasts (handleCheckout quietEnv (till True (Some ''u1'') debt None)) = [customerRequiredToast]"
proof -
  let ?s = "till True (Some ''u1'') debt None"
  have h1: "cart ?s \<noteq> []" and h2: "paymentMethod ?s = debt"
    and h3: "noCustomerSelected (selectedCustomerId ?s)"
    by (simp_all add: till_def noCustomerSelected_def)
  have "sales_table ?s = []" "toasts ?s = []" by (simp_all add: till_def)
  with debt_without_customer_rejected[OF h1 h2 h3, of quietEnv]
  have "sales_table (handleCheckout quietEnv ?s) = []
      \<and> toasts (handleCheckout quietEnv ?s) = [customerRequiredToast]" by simp
  with h1 h2 h3 show ?thesis by blast
qed

text \<open>
Claim C3 as stated fails when nobody is signed in: \<open>processOfflineSale\<close> throws
  "User not authenticated" before its loop, so an offline checkout of a two-line cart
  leaves the count of pending operations where it was.
\<close>

theorem offline_checkout_without_user_counterexample:
  "cart (till False None cash None) \<noteq> []
   \<and> \<not> isOnline (till False None cash None)
   \<and> pendingOperations (handleCheckout quietEnv (till False None cash None))
        \<noteq> pendingOperations (till False None cash None) + length (cart (till False None cash None))"
  by (simp add: run_simps pendingOperations_def)

text \<open>
Claim C3, amended. When a user is signed in and the checkout passes validation (the
  payment method is not debt, or a customer is selected), an offline checkout of a non-empty
  cart appends one record per cart line to the pending queue, every one of them with
  \<open>synced = false\<close>; the count of pending operations grows by exactly the number of lines;
  no request reaches the remote store, no remote row is added and no customer is updated.
\<close>

theorem offline_checkout_queues_every_line:
  assumes "cart s \<noteq> []" and "\<not> isOnline s" and "user s = Some uid"
    and "\<not> (paymentMethod s = debt \<and> noCustomerSelected (selectedCustomerId s))"
  shows "\<exists>recs. pending_queue (handleCheckout e s) = pending_queue s @ recs
     \<and> length recs = length (cart s)
     \<and> (\<forall>k<length (cart s). product_id (recs ! k) = prod_id (cart s ! k) \<and> \<not> synced (recs ! k))
     \<and> pendingOperations (handleCheckout e s) = pendingOperations s + length (cart s)
     \<and> remote_log (handleCheckout e s) = remote_log s
     \<and> sales_table (handleCheckout e s) = sales_table s
     \<and> customer_updates (handleCheckout e s) = customer_updates s
     \<and> toasts (handleCheckout e s) = toasts s @ [saleCompletedToast False]"
proof -
  let ?recs = "offlineRecords e uid (paymentMethod s) (selectedCustomerId s) (findCustomer s) 0 (cart s)"
  have hc: "handleCheckout e s =
       s\<lparr>cart := [], selectedCustomerId := None, paymentMethod := cash, isProcessingCheckout := False,
         toasts := toasts s @ [saleCompletedToast False],
         pending_queue := pending_queue s @ ?recs\<rparr>"
    by (rule handleCheckout_offline[OF assms(1) assms(4) assms(2) assms(3)])
  have "pending_queue (handleCheckout e s) = pending_queue s @ ?recs"
    by (simp add: hc)
  moreover have "length ?recs = length (cart s)"
    by (simp add: length_offlineRecords)
  moreover have "\<forall>k<length (cart s). product_id (?recs ! k) = prod_id (cart s ! k) \<and> \<not> synced (?recs ! k)"
    by (simp add: nth_offlineRecords)
  moreover have "pendingOperations (handleCheckout e s) = pendingOperations s + length (cart s)"
    by (simp add: hc pendingOperations_def length_offlineRecords)
  moreover have "remote_log (handleCheckout e s) = remote_log s"
    "sales_table (handleCheckout e s) = sales_table s"
    "customer_updates (handleCheckout e s) = customer_updates s"
    "toasts (handleCheckout e s) = toasts s @ [saleCompletedToast False]"
    by (simp_all add: hc)
  ultimately show ?thesis by blast
qed

theorem offline_checkout_queues_every_line_witness:
  "cart (till False (Some ''u1'') cash None) \<noteq> []
   \<and> \<not> isOnline (till False (Some ''u1'') cash None)
   \<and> user (till False (Some ''u1'') cash None) = Some ''u1''
   \<and> \<not> (paymentMethod (till False (Some ''u1'') cash None) = debt
        \<and> noCustomerSelected (selectedCustomerId (till False (Some ''u1'') cash None)))
   \<and> pendingOperations (handleCheckout quietEnv (till False (Some ''u1'') cash None)) = 2
   \<and> remote_log (handleCheckout quietEnv (till False (Some ''u1'') cash None)) = []"
proof -
  let ?s = "till False (Some ''u1'') cash None"
  have h1: "cart ?s \<noteq> []" and h2: "\<not> isOnline ?s" and h3: "user ?s = Some ''u1''"
    and h4: "\<not> (paymentMethod ?s = debt \<and> noCustomerSelected (selectedCustomerId ?s))"
    by (simp_all add: till_def)
  have "pendingOperations ?s = 0" "length (cart ?s) = 2" "remote_log ?s = []"
    by (simp_all add: till_def pendingOperations_def)
  with offline_checkout_queues_every_line[OF h1 h2 h3 h4, of quietEnv]
  have "pendingOperations (handleCheckout quietEnv ?s) = 2
      \<and> remote_log (handleCheckout quietEnv ?s) = []" by auto
  with h1 h2 h3 h4 show ?thesis by blast
qed



lemma set_stockRequests: "set (stockRequests rs) = {(p, v). UpdateStock p v \<in> set rs}"
  by (induction rs rule: stockRequests.induct) auto

lemma findCustomer_selected:
  "findCustomer s = Some c \<Longrightarrow> \<not> noCustomerSelected (selectedCustomerId s)"
  by (auto simp: findCustomer_def noCustomerSelected_def split: option.splits if_splits)

lemma debtUpdates_None [simp]: "debtUpdates e pm None i items = []"
  by (simp add: debtUpdates_def)

lemma debtUpdates_not_debt [simp]: "pm \<noteq> debt \<Longrightarrow> debtUpdates e pm c i items = []"
  by (simp add: debtUpdates_def split: option.splits)

lemma length_debtUpdates:
  "length (debtUpdates e debt (Some c) i items) = length items"
  by (simp add: debtUpdates_def)

lemma nth_debtUpdates:
  "k < length items \<Longrightarrow>
     debtUpdates e debt (Some c) i items ! k = (cust_id c, debtPatch c (purchase_time e (i + k)) (items ! k))"
  by (simp add: debtUpdates_def nth_enumerate_eq)

lemma in_debtUpdates:
  assumes "u \<in> set (debtUpdates e pm c i items)"
  shows "pm = debt \<and> (\<exists>cust item j. c = Some cust \<and> item \<in> set items
            \<and> u = (cust_id cust, debtPatch cust (purchase_time e j) item))"
proof (cases c)
  case None
  with assms show ?thesis by simp
next
  case (Some cust)
  show ?thesis
  proof (cases "pm = debt")
    case False
    with assms show ?thesis by simp
  next
    case True
    with assms Some obtain j item where "(j, item) \<in> set (enumerate i items)"
      "u = (cust_id cust, debtPatch cust (purchase_time e j) item)"
      by (auto simp: debtUpdates_def)
    moreover from this have "item \<in> set items"
      by (auto simp: in_set_enumerate_eq)
    ultimately show ?thesis using True Some by blast
  qed
qed

text \<open>Every run of \<open>handleCheckout\<close> either writes nothing outside the page, or is the online loop.\<close>

lemma handleCheckout_cases:
  "(remote_log (handleCheckout e s) = remote_log s
      \<and> customer_updates (handleCheckout e s) = customer_updates s
      \<and> sales_table (handleCheckout e s) = sales_table s
      \<and> toasts (handleCheckout e s) \<noteq> toasts s @ [saleCompletedToast True])
   \<or> (\<not> isOnline s
      \<and> remote_log (handleCheckout e s) = remote_log s
      \<and> customer_updates (handleCheckout e s) = customer_updates s
      \<and> sales_table (handleCheckout e s) = sales_table s)
   \<or> (\<exists>uid r s2. isOnline s \<and> user s = Some uid
         \<and> onlineLoop e uid (paymentMethod s) (selectedCustomerId s) (findCustomer s) 0 (cart s)
              (s\<lparr>isProcessingCheckout := True\<rparr>) = (r, s2)
         \<and> remote_log (handleCheckout e s) = remote_log s2
         \<and> customer_updates (handleCheckout e s) = customer_updates s2
         \<and> sales_table (handleCheckout e s) = sales_table s2
         \<and> (toasts (handleCheckout e s) = toasts s @ [saleCompletedToast True] \<longrightarrow> r = None))"
proof (cases "cart s = []")
  case True
  then show ?thesis by (simp add: handleCheckout_def)
next
  case ne: False
  show ?thesis
  proof (cases "paymentMethod s = debt \<and> noCustomerSelected (selectedCustomerId s)")
    case True
    with ne show ?thesis by (simp add: handleCheckout_def)
  next
    case valid: False
    show ?thesis
    proof (cases "user s")
      case None
      from handleCheckout_no_user[OF ne valid None, of e] show ?thesis by simp
    next
      case (Some uid)
      show ?thesis
      proof (cases "isOnline s")
        case False
        from handleCheckout_offline[OF ne valid False Some, of e] False show ?thesis by simp
      next
        case True
        obtain r s2 where loop:
          "onlineLoop e uid (paymentMethod s) (selectedCustomerId s) (findCustomer s) 0 (cart s)
             (s\<lparr>isProcessingCheckout := True\<rparr>) = (r, s2)"
          by (cases "onlineLoop e uid (paymentMethod s) (selectedCustomerId s) (findCustomer s) 0 (cart s)
             (s\<lparr>isProcessingCheckout := True\<rparr>)")
        note hc = handleCheckout_online[OF ne valid True Some loop]
        note frame = onlineLoop_frame[OF loop]
        have "remote_log (handleCheckout e s) = remote_log s2"
          "customer_updates (handleCheckout e s) = customer_updates s2"
          "sales_table (handleCheckout e s) = sales_table s2"
          "toasts (handleCheckout e s) = toasts s @ [saleCompletedToast True] \<longrightarrow> r = None"
          using hc frame by (cases r; simp)+
        with True Some loop show ?thesis by blast
      qed
    qed
  qed
qed

text \<open>
The calls to \<open>updateCustomer\<close>. Whatever the checkout does, its calls are appended to those
  made before, and there is at least one only if the payment method is debt and a customer
  is selected: a cash or mobile-money sale makes none. Every call is for the selected
  customer and one cart line, and carries the customer's \<open>outstandingDebt\<close> and
  \<open>totalPurchases\<close>, as read when the checkout started, plus selling price times quantity of
  that line. A completed online debt sale makes exactly one call per line.
\<close>

lemma customer_update_calls:
  "\<exists>ups. customer_updates (handleCheckout e s) = customer_updates s @ ups
     \<and> (ups \<noteq> [] \<longrightarrow> paymentMethod s = debt \<and> \<not> noCustomerSelected (selectedCustomerId s))
     \<and> (\<forall>u\<in>set ups. \<exists>c item j. findCustomer s = Some c \<and> item \<in> set (cart s)
            \<and> fst u = cust_id c
            \<and> patch_outstandingDebt (snd u) = outstandingDebt c + sellingPrice item * quantity item
            \<and> patch_totalPurchases (snd u) = totalPurchases c + sellingPrice item * quantity item
            \<and> patch_lastPurchaseDate (snd u) = purchase_time e j)
     \<and> (\<forall>c. isOnline s \<and> paymentMethod s = debt \<and> findCustomer s = Some c
            \<and> toasts (handleCheckout e s) = toasts s @ [saleCompletedToast True]
          \<longrightarrow> length ups = length (cart s)
              \<and> (\<forall>k<length (cart s). fst (ups ! k) = cust_id c
                    \<and> patch_outstandingDebt (snd (ups ! k)) =
                        outstandingDebt c + sellingPrice (cart s ! k) * quantity (cart s ! k)
                    \<and> patch_totalPurchases (snd (ups ! k)) =
                        totalPurchases c + sellingPrice (cart s ! k) * quantity (cart s ! k)
                    \<and> patch_lastPurchaseDate (snd (ups ! k)) = purchase_time e k))"
proof -
  let ?s' = "handleCheckout e s"
  consider
    (quiet) "customer_updates ?s' = customer_updates s"
      "\<not> isOnline s \<or> toasts ?s' \<noteq> toasts s @ [saleCompletedToast True]"
  | (loop) uid r s2 where "isOnline s"
      "onlineLoop e uid (paymentMethod s) (selectedCustomerId s) (findCustomer s) 0 (cart s)
              (s\<lparr>isProcessingCheckout := True\<rparr>) = (r, s2)"
      "customer_updates ?s' = customer_updates s2"
      "toasts ?s' = toasts s @ [saleCompletedToast True] \<longrightarrow> r = None"
    using handleCheckout_cases[of e s] by blast
  then show ?thesis
  proof cases
    case quiet
    then show ?thesis by (intro exI[of _ "[]"]) auto
  next
    case loop
    from onlineLoop_updates_any[OF loop(2)] obtain n where n: "n \<le> length (cart s)"
      "customer_updates s2 = customer_updates s @
         debtUpdates e (paymentMethod s) (findCustomer s) 0 (take n (cart s))"
      by auto
    let ?ups = "debtUpdates e (paymentMethod s) (findCustomer s) 0 (take n (cart s))"
    have a: "customer_updates ?s' = customer_updates s @ ?ups"
      using loop(3) n(2) by simp
    have members: "\<exists>c item j. paymentMethod s = debt \<and> findCustomer s = Some c \<and> item \<in> set (cart s)
            \<and> u = (cust_id c, debtPatch c (purchase_time e j) item)" if "u \<in> set ?ups" for u
    proof -
      from in_debtUpdates[OF that] obtain c item j where
        "paymentMethod s = debt" "findCustomer s = Some c" "item \<in> set (take n (cart s))"
        "u = (cust_id c, debtPatch c (purchase_time e j) item)" by blast
      moreover from this have "item \<in> set (cart s)" by (meson in_set_takeD)
      ultimately show ?thesis by blast
    qed
    have b: "?ups \<noteq> [] \<longrightarrow> paymentMethod s = debt \<and> \<not> noCustomerSelected (selectedCustomerId s)"
    proof
      assume "?ups \<noteq> []"
      then obtain u where "u \<in> set ?ups" by (cases ?ups) auto
      from members[OF this] show "paymentMethod s = debt \<and> \<not> noCustomerSelected (selectedCustomerId s)"
        using findCustomer_selected by blast
    qed
    have c: "\<forall>u\<in>set ?ups. \<exists>c item j. findCustomer s = Some c \<and> item \<in> set (cart s)
            \<and> fst u = cust_id c
            \<and> patch_outstandingDebt (snd u) = outstandingDebt c + sellingPrice item * quantity item
            \<and> patch_totalPurchases (snd u) = totalPurchases c + sellingPrice item * quantity item
            \<and> patch_lastPurchaseDate (snd u) = purchase_time e j"
    proof
      fix u assume "u \<in> set ?ups"
      from members[OF this] obtain c item j where m: "findCustomer s = Some c" "item \<in> set (cart s)"
        "u = (cust_id c, debtPatch c (purchase_time e j) item)" by blast
      have "fst u = cust_id c
            \<and> patch_outstandingDebt (snd u) = outstandingDebt c + sellingPrice item * quantity item
            \<and> patch_totalPurchases (snd u) = totalPurchases c + sellingPrice item * quantity item
            \<and> patch_lastPurchaseDate (snd u) = purchase_time e j"
        using m(3) by (simp add: debtPatch_def)
      with m(1,2) show "\<exists>c item j. findCustomer s = Some c \<and> item \<in> set (cart s)
            \<and> fst u = cust_id c
            \<and> patch_outstandingDebt (snd u) = outstandingDebt c + sellingPrice item * quantity item
            \<and> patch_totalPurchases (snd u) = totalPurchases c + sellingPrice item * quantity item
            \<and> patch_lastPurchaseDate (snd u) = purchase_time e j" by blast
    qed
    have d: "\<forall>c. isOnline s \<and> paymentMethod s = debt \<and> findCustomer s = Some c
            \<and> toasts ?s' = toasts s @ [saleCompletedToast True]
          \<longrightarrow> length ?ups = length (cart s)
              \<and> (\<forall>k<length (cart s). fst (?ups ! k) = cust_id c
                    \<and> patch_outstandingDebt (snd (?ups ! k)) =
                        outstandingDebt c + sellingPrice (cart s ! k) * quantity (cart s ! k)
                    \<and> patch_totalPurchases (snd (?ups ! k)) =
                        totalPurchases c + sellingPrice (cart s ! k) * quantity (cart s ! k)
                    \<and> patch_lastPurchaseDate (snd (?ups ! k)) = purchase_time e k)"
    proof (intro allI impI)
      fix c assume h: "isOnline s \<and> paymentMethod s = debt \<and> findCustomer s = Some c
            \<and> toasts ?s' = toasts s @ [saleCompletedToast True]"
      with loop(4) have "r = None" by simp
      from onlineLoop_success_updates[OF loop(2)[unfolded this]] n(2)
      have "?ups = debtUpdates e debt (Some c) 0 (cart s)" using h by simp
      then show "length ?ups = length (cart s)
              \<and> (\<forall>k<length (cart s). fst (?ups ! k) = cust_id c
                    \<and> patch_outstandingDebt (snd (?ups ! k)) =
                        outstandingDebt c + sellingPrice (cart s ! k) * quantity (cart s ! k)
                    \<and> patch_totalPurchases (snd (?ups ! k)) =
                        totalPurchases c + sellingPrice (cart s ! k) * quantity (cart s ! k)
                    \<and> patch_lastPurchaseDate (snd (?ups ! k)) = purchase_time e k)"
        by (simp add: length_debtUpdates nth_debtUpdates debtPatch_def)
    qed
    from a b c d show ?thesis by blast
  qed
qed

lemma customer_update_calls_example:
  "isOnline (till True (Some ''u1'') debt (Some ''c1''))
   \<and> paymentMethod (till True (Some ''u1'') debt (Some ''c1'')) = debt
   \<and> findCustomer (till True (Some ''u1'') debt (Some ''c1'')) = Some amina
   \<and> toasts (handleCheckout quietEnv (till True (Some ''u1'') debt (Some ''c1''))) =
       toasts (till True (Some ''u1'') debt (Some ''c1'')) @ [saleCompletedToast True]
   \<and> (\<exists>ups. customer_updates (handleCheckout quietEnv (till True (Some ''u1'') debt (Some ''c1''))) = ups
         \<and> length ups = 2
         \<and> patch_outstandingDebt (snd (ups ! 0)) = 250
         \<and> patch_outstandingDebt (snd (ups ! 1)) = 170)"
proof -
  let ?s = "till True (Some ''u1'') debt (Some ''c1'')"
  have h1: "isOnline ?s" and h2: "paymentMethod ?s = debt" and h3: "findCustomer ?s = Some amina"
    by (simp_all add: till_def findCustomer_def amina_def)
  have h4: "toasts (handleCheckout quietEnv ?s) = toasts ?s @ [saleCompletedToast True]"
    by (simp add: run_simps amina_def)
  have vals: "customer_updates ?s = []" "length (cart ?s) = 2" "outstandingDebt amina = 50"
    "sellingPrice (cart ?s ! 0) * quantity (cart ?s ! 0) = 200"
    "sellingPrice (cart ?s ! 1) * quantity (cart ?s ! 1) = 120"
    by (simp_all add: till_def amina_def sugar_def soap_def)
  from customer_update_calls[of quietEnv ?s] obtain ups where
    ups: "customer_updates (handleCheckout quietEnv ?s) = customer_updates ?s @ ups"
    and full: "\<forall>c. isOnline ?s \<and> paymentMethod ?s = debt \<and> findCustomer ?s = Some c
            \<and> toasts (handleCheckout quietEnv ?s) = toasts ?s @ [saleCompletedToast True]
          \<longrightarrow> length ups = length (cart ?s)
              \<and> (\<forall>k<length (cart ?s). fst (ups ! k) = cust_id c
                    \<and> patch_outstandingDebt (snd (ups ! k)) =
                        outstandingDebt c + sellingPrice (cart ?s ! k) * quantity (cart ?s ! k)
                    \<and> patch_totalPurchases (snd (ups ! k)) =
                        totalPurchases c + sellingPrice (cart ?s ! k) * quantity (cart ?s ! k)
                    \<and> patch_lastPurchaseDate (snd (ups ! k)) = purchase_time quietEnv k)"
    by blast
  from full h1 h2 h3 h4 have len: "length ups = length (cart ?s)"
    and each: "\<forall>k<length (cart ?s). patch_outstandingDebt (snd (ups ! k)) =
                        outstandingDebt amina + sellingPrice (cart ?s ! k) * quantity (cart ?s ! k)"
    by blast+
  from each vals have "patch_outstandingDebt (snd (ups ! 0)) = 250"
    "patch_outstandingDebt (snd (ups ! 1)) = 170" by auto
  with ups len vals(1,2) have "\<exists>ups. customer_updates (handleCheckout quietEnv ?s) = ups
         \<and> length ups = 2
         \<and> patch_outstandingDebt (snd (ups ! 0)) = 250
         \<and> patch_outstandingDebt (snd (ups ! 1)) = 170" by simp
  with h1 h2 h3 h4 show ?thesis by blast
qed

text \<open>
Claim C7 fails on the code for a debt sale of more than one line. The customer is a
  client of debt 50 and purchases 500; the cart has a line of total 200 and a line of total
  120. The completed online checkout calls \<open>updateCustomer\<close> with debts 250 and then 170,
  each computed from the customer object found before the loop; once both are stored the
  debt is 170 and the purchases 620, where an increase by every line total gives 370 and 820.
\<close>

theorem debt_sale_keeps_last_line_only:
  "paymentMethod (till True (Some ''u1'') debt (Some ''c1'')) = debt
   \<and> findCustomer (till True (Some ''u1'') debt (Some ''c1'')) = Some amina
   \<and> toasts (handleCheckout quietEnv (till True (Some ''u1'') debt (Some ''c1''))) = [saleCompletedToast True]
   \<and> map (patch_outstandingDebt \<circ> snd)
         (customer_updates (handleCheckout quietEnv (till True (Some ''u1'') debt (Some ''c1'')))) = [250, 170]
   \<and> map outstandingDebt
         (customersAfter (handleCheckout quietEnv (till True (Some ''u1'') debt (Some ''c1'')))) = [170]
   \<and> map totalPurchases
         (customersAfter (handleCheckout quietEnv (till True (Some ''u1'') debt (Some ''c1'')))) = [620]
   \<and> outstandingDebt amina + sellingPrice sugar * quantity sugar + sellingPrice soap * quantity soap = 370
   \<and> totalPurchases amina + sellingPrice sugar * quantity sugar + sellingPrice soap * quantity soap = 820"
  by (simp add: run_simps customersAfter_def applyCustomerUpdate_def amina_def sugar_def soap_def
        debtPatch_def saleData_def customerName_def saleCompletedToast_def)

text \<open>
Claim C8. Every stock update a checkout sends to the remote store is for a cart line and
  writes \<open>max 0 (S - Q)\<close>, where \<open>S\<close> is the line's \<open>currentStock\<close> and \<open>Q\<close> its
  quantity; the value written is never negative. A completed online checkout sends exactly
  one such update per line, in cart order.
\<close>

theorem stock_written_back_is_clamped:
  "\<exists>rs. remote_log (handleCheckout e s) = remote_log s @ rs
     \<and> (\<forall>p v. (p, v) \<in> set (stockRequests rs) \<longrightarrow>
            0 \<le> v \<and> (\<exists>item\<in>set (cart s). p = prod_id item
                          \<and> v = max 0 (currentStock item - quantity item)))
     \<and> (isOnline s \<and> toasts (handleCheckout e s) = toasts s @ [saleCompletedToast True] \<longrightarrow>
          stockRequests rs =
            map (\<lambda>item. (prod_id item, max 0 (currentStock item - quantity item))) (cart s))"
proof -
  let ?s' = "handleCheckout e s"
  consider
    (quiet) "remote_log ?s' = remote_log s"
      "\<not> isOnline s \<or> toasts ?s' \<noteq> toasts s @ [saleCompletedToast True]"
  | (loop) uid r s2 where "isOnline s"
      "onlineLoop e uid (paymentMethod s) (selectedCustomerId s) (findCustomer s) 0 (cart s)
              (s\<lparr>isProcessingCheckout := True\<rparr>) = (r, s2)"
      "remote_log ?s' = remote_log s2"
      "toasts ?s' = toasts s @ [saleCompletedToast True] \<longrightarrow> r = None"
    using handleCheckout_cases[of e s] by blast
  then show ?thesis
  proof cases
    case quiet
    then show ?thesis by (intro exI[of _ "[]"]) auto
  next
    case loop
    from onlineLoop_log_any[OF loop(2)] obtain rs where rs:
      "remote_log s2 = remote_log s @ rs"
      "\<forall>p v. UpdateStock p v \<in> set rs \<longrightarrow>
          (\<exists>item\<in>set (cart s). p = prod_id item \<and> v = max 0 (currentStock item - quantity item))"
      by auto
    have a: "remote_log ?s' = remote_log s @ rs" using loop(3) rs(1) by simp
    have b: "\<forall>p v. (p, v) \<in> set (stockRequests rs) \<longrightarrow>
            0 \<le> v \<and> (\<exists>item\<in>set (cart s). p = prod_id item
                          \<and> v = max 0 (currentStock item - quantity item))"
    proof (intro allI impI)
      fix p v assume "(p, v) \<in> set (stockRequests rs)"
      then have "UpdateStock p v \<in> set rs" by (simp add: set_stockRequests)
      with rs(2) obtain item where item: "item \<in> set (cart s)" "p = prod_id item"
        "v = max 0 (currentStock item - quantity item)" by blast
      from item(3) have "0 \<le> v" by simp
      with item show "0 \<le> v \<and> (\<exists>item\<in>set (cart s). p = prod_id item
                          \<and> v = max 0 (currentStock item - quantity item))" by blast
    qed
    have c: "isOnline s \<and> toasts ?s' = toasts s @ [saleCompletedToast True] \<longrightarrow>
          stockRequests rs =
            map (\<lambda>item. (prod_id item, max 0 (currentStock item - quantity item))) (cart s)"
    proof
      assume "isOnline s \<and> toasts ?s' = toasts s @ [saleCompletedToast True]"
      with loop(4) have "r = None" by simp
      from onlineLoop_success_log[OF loop(2)[unfolded this]] rs(1)
      have "rs = lineRequests e uid (paymentMethod s) (selectedCustomerId s) (findCustomer s) 0 (cart s)"
        by simp
      then show "stockRequests rs =
            map (\<lambda>item. (prod_id item, max 0 (currentStock item - quantity item))) (cart s)"
        by (simp add: stockRequests_lineRequests)
    qed
    from a b c show ?thesis by blast
  qed
qed

theorem stock_written_back_is_clamped_witness:
  "isOnline (till True (Some ''u1'') cash None)
   \<and> toasts (handleCheckout quietEnv (till True (Some ''u1'') cash None)) =
       toasts (till True (Some ''u1'') cash None) @ [saleCompletedToast True]
   \<and> stockRequests (remote_log (handleCheckout quietEnv (till True (Some ''u1'') cash None))) =
       [(''p1'', 3), (''p2'', 0)]"
proof -
  let ?s = "till True (Some ''u1'') cash None"
  have h1: "isOnline ?s" by (simp add: till_def)
  have h2: "toasts (handleCheckout quietEnv ?s) = toasts ?s @ [saleCompletedToast True]"
    by (simp add: run_simps)
  have vals: "remote_log ?s = []"
    "map (\<lambda>item. (prod_id item, max 0 (currentStock item - quantity item))) (cart ?s) =
       [(''p1'', 3), (''p2'', 0)]"
    by (simp_all add: till_def sugar_def soap_def)
  from stock_written_back_is_clamped[of quietEnv ?s] h1 h2 vals
  have "stockRequests (remote_log (handleCheckout quietEnv ?s)) = [(''p1'', 3), (''p2'', 0)]"
    by auto
  with h1 h2 show ?thesis by blast
qed

lemma addToCart_declined:
  "currentStock p = 0 \<Longrightarrow> addToCart False p s = s"
  by (simp add: addToCart_def)

lemma addToCart_existing:
  assumes "currentStock p \<noteq> 0 \<or> b" and "prod_id p \<in> prod_id ` set (cart s)"
  shows "cart (addToCart b p s) =
           map (\<lambda>item. if prod_id item = prod_id p then item\<lparr>quantity := quantity item + 1\<rparr> else item) (cart s)"
proof -
  from assms(2) have "find (\<lambda>item. prod_id item = prod_id p) (cart s) \<noteq> None"
    by (auto simp: find_None_iff)
  then obtain x where "find (\<lambda>item. prod_id item = prod_id p) (cart s) = Some x" by blast
  with assms(1) show ?thesis by (auto simp: addToCart_def)
qed

lemma addToCart_new:
  assumes "currentStock p \<noteq> 0 \<or> b" and "prod_id p \<notin> prod_id ` set (cart s)"
  shows "cart (addToCart b p s) = cart s @ [cartItem p]"
proof -
  from assms(2) have "find (\<lambda>item. prod_id item = prod_id p) (cart s) = None"
    by (auto simp: find_None_iff image_iff)
  with assms(1) show ?thesis by (auto simp: addToCart_def)
qed

lemma prod_id_bump:
  "map (prod_id \<circ> (\<lambda>item. if prod_id item = i then item\<lparr>quantity := f item\<rparr> else item)) c
     = map prod_id c"
  by (induction c) simp_all

lemma cartInvariant_addToCart:
  assumes "cartInvariant (cart s)"
  shows "cartInvariant (cart (addToCart b p s))"
proof (cases "currentStock p = 0 \<and> \<not> b")
  case True
  with assms show ?thesis by (simp add: addToCart_def)
next
  case False
  then have go: "currentStock p \<noteq> 0 \<or> b" by blast
  show ?thesis
  proof (cases "prod_id p \<in> prod_id ` set (cart s)")
    case True
    have "list_all (\<lambda>item. 0 < quantity item)
            (map (\<lambda>item. if prod_id item = prod_id p then item\<lparr>quantity := quantity item + 1\<rparr> else item) (cart s))"
      using assms by (auto simp: cartInvariant_def list_all_iff)
    then show ?thesis
      using assms by (simp add: addToCart_existing[OF go True] cartInvariant_def prod_id_bump)
  next
    case False
    then show ?thesis
      using assms by (auto simp: addToCart_new[OF go False] cartInvariant_def cartItem_def)
  qed
qed

lemma cartInvariant_removeFromCart:
  "cartInvariant (cart s) \<Longrightarrow> cartInvariant (cart (removeFromCart i s))"
  by (auto simp: removeFromCart_def cartInvariant_def distinct_map_filter list_all_iff)

lemma cartInvariant_updateQuantity:
  assumes "cartInvariant (cart s)"
  shows "cartInvariant (cart (updateQuantity i q s))"
proof (cases "q \<le> 0")
  case True
  then show ?thesis using cartInvariant_removeFromCart[OF assms] by (simp add: updateQuantity_def)
next
  case False
  have "list_all (\<lambda>item. 0 < quantity item)
          (map (\<lambda>item. if prod_id item = i then item\<lparr>quantity := q\<rparr> else item) (cart s))"
    using assms False by (auto simp: cartInvariant_def list_all_iff)
  with False assms show ?thesis
    by (simp add: updateQuantity_def cartInvariant_def prod_id_bump)
qed

lemma handleCheckout_cart:
  "cart (handleCheckout e s) = cart s \<or> cart (handleCheckout e s) = []"
proof (cases "cart s = [] \<or> (paymentMethod s = debt \<and> noCustomerSelected (selectedCustomerId s))")
  case True
  then show ?thesis by (auto simp: handleCheckout_def)
next
  case False
  then have ne: "cart s \<noteq> []"
    and valid: "\<not> (paymentMethod s = debt \<and> noCustomerSelected (selectedCustomerId s))" by auto
  show ?thesis
  proof (cases "user s")
    case None
    from handleCheckout_no_user[OF ne valid None, of e] show ?thesis by simp
  next
    case (Some uid)
    show ?thesis
    proof (cases "isOnline s")
      case False
      from handleCheckout_offline[OF ne valid False Some, of e] show ?thesis by simp
    next
      case True
      obtain r s2 where loop:
        "onlineLoop e uid (paymentMethod s) (selectedCustomerId s) (findCustomer s) 0 (cart s)
           (s\<lparr>isProcessingCheckout := True\<rparr>) = (r, s2)"
        by (cases "onlineLoop e uid (paymentMethod s) (selectedCustomerId s) (findCustomer s) 0 (cart s)
           (s\<lparr>isProcessingCheckout := True\<rparr>)")
      from handleCheckout_online[OF ne valid True Some loop] onlineLoop_frame[OF loop]
      show ?thesis by (cases r) simp_all
    qed
  qed
qed

lemma cartInvariant_cartStep:
  assumes "cartInvariant (cart s)"
  shows "cartInvariant (cart (cartStep s a))"
proof (cases a)
  case (AddToCart b p)
  then show ?thesis using cartInvariant_addToCart[OF assms] by simp
next
  case (RemoveFromCart i)
  then show ?thesis using cartInvariant_removeFromCart[OF assms] by simp
next
  case (UpdateQuantity i q)
  then show ?thesis using cartInvariant_updateQuantity[OF assms] by simp
next
  case ClearCart
  then show ?thesis by (simp add: clearCart_def cartInvariant_def)
next
  case (Checkout e)
  have "cartInvariant []" by (simp add: cartInvariant_def)
  with handleCheckout_cart[of e s] assms Checkout show ?thesis by auto
qed

lemma cartInvariant_foldl:
  "cartInvariant (cart s) \<Longrightarrow> cartInvariant (cart (foldl cartStep s acts))"
  by (induction acts arbitrary: s) (simp_all add: cartInvariant_cartStep)

text \<open>
Claim C9 as stated fails for a product whose stock is 0 when the confirmation prompt is
  declined: \<open>addToCart\<close> returns before touching the cart, so the quantity of the line
  already in the cart stays 1.
\<close>

theorem add_out_of_stock_declined_counterexample:
  "prod_id flour \<in> prod_id ` set (cart (addToCart True flour emptyTill))
   \<and> map quantity (cart (addToCart True flour emptyTill)) = [1]
   \<and> map quantity (cart (addToCart False flour (addToCart True flour emptyTill))) = [1]"
  by (simp add: addToCart_def cartItem_def flour_def emptyTill_def till_def)

text \<open>
Claim C9, amended. In every state reached from the empty cart by \<open>addToCart\<close>,
  \<open>removeFromCart\<close>, \<open>updateQuantity\<close>, \<open>clearCart\<close> and \<open>handleCheckout\<close>, no two cart
  lines have the same product id and every line has a quantity above 0. There,
  \<open>addToCart\<close>, unless the product's stock is 0 and the prompt is declined, adds 1 to the
  quantity of the line of a product already in the cart and appends nothing, and appends one
  line with quantity 1 for a new product; when the stock is 0 and the prompt is declined it
  changes nothing; \<open>updateQuantity\<close> with a quantity of 0 or less removes the line.
\<close>

theorem cart_lines_unique_and_positive:
  assumes "cart s0 = []" and "s = foldl cartStep s0 acts"
  shows "distinct (map prod_id (cart s)) \<and> (\<forall>item\<in>set (cart s). 0 < quantity item)
     \<and> (\<forall>b p. (currentStock p \<noteq> 0 \<or> b) \<and> prod_id p \<in> prod_id ` set (cart s) \<longrightarrow>
           cart (addToCart b p s) =
             map (\<lambda>item. if prod_id item = prod_id p then item\<lparr>quantity := quantity item + 1\<rparr> else item)
                 (cart s))
     \<and> (\<forall>b p. (currentStock p \<noteq> 0 \<or> b) \<and> prod_id p \<notin> prod_id ` set (cart s) \<longrightarrow>
           cart (addToCart b p s) = cart s @ [cartItem p] \<and> quantity (cartItem p) = 1)
     \<and> (\<forall>p. currentStock p = 0 \<longrightarrow> addToCart False p s = s)
     \<and> (\<forall>i q. q \<le> 0 \<longrightarrow>
           cart (updateQuantity i q s) = filter (\<lambda>item. prod_id item \<noteq> i) (cart s)
           \<and> i \<notin> prod_id ` set (cart (updateQuantity i q s)))"
proof -
  have "cartInvariant (cart s0)" using assms(1) by (simp add: cartInvariant_def)
  then have "cartInvariant (cart s)" unfolding assms(2) by (rule cartInvariant_foldl)
  then have inv: "distinct (map prod_id (cart s))" "\<forall>item\<in>set (cart s). 0 < quantity item"
    by (simp_all add: cartInvariant_def list_all_iff)
  have upd: "\<forall>i q. q \<le> 0 \<longrightarrow>
           cart (updateQuantity i q s) = filter (\<lambda>item. prod_id item \<noteq> i) (cart s)
           \<and> i \<notin> prod_id ` set (cart (updateQuantity i q s))"
    by (auto simp: updateQuantity_def removeFromCart_def)
  have new: "\<forall>b p. (currentStock p \<noteq> 0 \<or> b) \<and> prod_id p \<notin> prod_id ` set (cart s) \<longrightarrow>
           cart (addToCart b p s) = cart s @ [cartItem p] \<and> quantity (cartItem p) = 1"
    using addToCart_new by (simp add: cartItem_def)
  have old: "\<forall>b p. (currentStock p \<noteq> 0 \<or> b) \<and> prod_id p \<in> prod_id ` set (cart s) \<longrightarrow>
           cart (addToCart b p s) =
             map (\<lambda>item. if prod_id item = prod_id p then item\<lparr>quantity := quantity item + 1\<rparr> else item)
                 (cart s)"
    using addToCart_existing by blast
  have declined: "\<forall>p. currentStock p = 0 \<longrightarrow> addToCart False p s = s"
    using addToCart_declined by blast
  show ?thesis
    by (intro conjI inv old new declined upd)
qed

theorem cart_lines_unique_and_positive_witness:
  "cart emptyTill = []
   \<and> map quantity (cart (foldl cartStep emptyTill [AddToCart True flour])) = [1]
   \<and> map quantity (cart (addToCart True flour (foldl cartStep emptyTill [AddToCart True flour]))) = [2]
   \<and> map prod_id (cart (addToCart False rice (foldl cartStep emptyTill [AddToCart True flour])))
        = [''p3'', ''p4'']
   \<and> addToCart False flour (foldl cartStep emptyTill [AddToCart True flour])
        = foldl cartStep emptyTill [AddToCart True flour]
   \<and> cart (updateQuantity ''p3'' 0 (foldl cartStep emptyTill [AddToCart True flour])) = []"
proof -
  let ?s = "foldl cartStep emptyTill [AddToCart True flour]"
  have h1: "cart emptyTill = []" by (simp add: emptyTill_def)
  have c: "cart ?s = [cartItem flour]"
    by (simp add: addToCart_def emptyTill_def till_def)
  have f: "currentStock flour = 0" "prod_id flour = ''p3''" "currentStock rice = 7" "prod_id rice = ''p4''"
    by (simp_all add: flour_def rice_def)
  note th = cart_lines_unique_and_positive[OF h1 refl, of "[AddToCart True flour]"]
  note old = th[THEN conjunct2, THEN conjunct2, THEN conjunct1, rule_format]
  note new = th[THEN conjunct2, THEN conjunct2, THEN conjunct2, THEN conjunct1, rule_format]
  note declined = th[THEN conjunct2, THEN conjunct2, THEN conjunct2, THEN conjunct2, THEN conjunct1, rule_format]
  note upd = th[THEN conjunct2, THEN conjunct2, THEN conjunct2, THEN conjunct2, THEN conjunct2, rule_format]
  have a: "map quantity (cart ?s) = [1]" using c by (simp add: cartItem_def)
  have "prod_id flour \<in> prod_id ` set (cart ?s)" using c by (simp add: cartItem_def)
  then have "cart (addToCart True flour ?s) =
      map (\<lambda>item. if prod_id item = prod_id flour then item\<lparr>quantity := quantity item + 1\<rparr> else item) (cart ?s)"
    by (intro old) simp
  then have b: "map quantity (cart (addToCart True flour ?s)) = [2]"
    unfolding c by (simp add: cartItem_def)
  have "prod_id rice \<notin> prod_id ` set (cart ?s)" unfolding c using f by (simp add: cartItem_def)
  with f(3) have "cart (addToCart False rice ?s) = cart ?s @ [cartItem rice]"
    by (intro new[THEN conjunct1]) simp
  then have d: "map prod_id (cart (addToCart False rice ?s)) = [''p3'', ''p4'']"
    unfolding c using f by (simp add: cartItem_def)
  have e: "addToCart False flour ?s = ?s" by (rule declined[OF f(1)])
  have "cart (updateQuantity ''p3'' 0 ?s) = filter (\<lambda>item. prod_id item \<noteq> ''p3'') (cart ?s)"
    by (intro upd[THEN conjunct1]) simp
  then have g: "cart (updateQuantity ''p3'' 0 ?s) = []" unfolding c using f by (simp add: cartItem_def)
  from h1 a b d e g show ?thesis by (intro conjI)
qed

section \<open>Properties of the offline-aware read\<close>

lemma applyFilters_eq:
  "applyFilters filters rows =
     filter (\<lambda>item. \<forall>(key, v)\<in>set filters. isSet v \<longrightarrow> getField item key = v) rows"
proof (induction filters arbitrary: rows)
  case Nil
  then show ?case by simp
next
  case (Cons f rest)
  obtain key v where f: "f = (key, v)" by (cases f)
  show ?case
    unfolding f by (auto simp: Cons.IH intro: filter_cong)
qed

text \<open>
Claim C6. While offline, \<open>fetchData\<close> issues no query; it sets no error; the data it returns are
  exactly the cached rows of the table that agree with every filter whose value is neither
  \<open>undefined\<close> nor \<open>null\<close> (the other filters are ignored), in cache order; on a cache miss
  the data are the empty list. The cache is left as it was and \<open>loading\<close> ends false.
\<close>

theorem offline_read_filters_cache:
  "queries (fetchData False remote tbl select filters h) = queries h
   \<and> error (fetchData False remote tbl select filters h) = None
   \<and> data (fetchData False remote tbl select filters h) =
       filter (\<lambda>item. \<forall>(key, v)\<in>set filters. v \<noteq> JUndefined \<and> v \<noteq> JNull \<longrightarrow> getField item key = v)
         (case cache h tbl of None \<Rightarrow> [] | Some rows \<Rightarrow> rows)
   \<and> (cache h tbl = None \<longrightarrow> data (fetchData False remote tbl select filters h) = [])
   \<and> cache (fetchData False remote tbl select filters h) = cache h
   \<and> \<not> loading (fetchData False remote tbl select filters h)"
  by (simp add: fetchData_def getOfflineData_def applyFilters_eq isSet_def)

theorem offline_read_filters_cache_witness:
  "cache shelf Transactions = None
   \<and> data (fetchData False remoteDown Transactions ''*'' [(''category'', JStr ''Food'')] shelf) = []
   \<and> data (fetchData False remoteDown Products ''*''
             [(''category'', JStr ''Food''), (''name'', JNull)] shelf) = [foodRow]
   \<and> queries (fetchData False remoteDown Products ''*''
             [(''category'', JStr ''Food''), (''name'', JNull)] shelf) = []"
proof -
  have miss: "cache shelf Transactions = None" by (simp add: shelf_def)
  note a = offline_read_filters_cache[of remoteDown Transactions "''*''" "[(''category'', JStr ''Food'')]" shelf]
  note b = offline_read_filters_cache[of remoteDown Products "''*''"
             "[(''category'', JStr ''Food''), (''name'', JNull)]" shelf]
  from a miss have 1: "data (fetchData False remoteDown Transactions ''*'' [(''category'', JStr ''Food'')] shelf) = []"
    by blast
  from b have 2: "data (fetchData False remoteDown Products ''*''
             [(''category'', JStr ''Food''), (''name'', JNull)] shelf) = [foodRow]"
    by (simp add: shelf_def foodRow_def homeRow_def getField_def)
  from b have 3: "queries (fetchData False remoteDown Products ''*''
             [(''category'', JStr ''Food''), (''name'', JNull)] shelf) = []"
    by (simp add: shelf_def)
  from miss 1 2 3 show ?thesis by (intro conjI)
qed

lemma fetchData_remote_error:
  assumes "remote (tbl, select, eqConditions filters) = QueryError err"
  shows "error (fetchData True remote tbl select filters h) = Some (errorMessage err)
       \<and> data (fetchData True remote tbl select filters h) =
           (case cache h tbl of None \<Rightarrow> data h | Some rows \<Rightarrow> rows)
       \<and> \<not> loading (fetchData True remote tbl select filters h)"
  using assms
  by (simp add: fetchData_def catchFetchError_def getOfflineData_def Let_def split: option.splits)

text \<open>
Claim C5 fails on the code. Online, with the remote query failing, the error is surfaced
  and nothing is thrown, but the data are the whole cached snapshot: the \<open>catch\<close> block
  never applies the filters, which the offline branch of the same function does. With the
  rows of two categories cached and a filter on the category, the failed online read returns
  both rows where the offline read returns one.
\<close>

theorem fallback_ignores_filters:
  "error (fetchData True remoteDown Products ''*'' [(''category'', JStr ''Food'')] shelf)
     = Some ''Failed to fetch''
   \<and> data (fetchData True remoteDown Products ''*'' [(''category'', JStr ''Food'')] shelf)
     = [foodRow, homeRow]
   \<and> data (fetchData False remoteDown Products ''*'' [(''category'', JStr ''Food'')] shelf)
     = [foodRow]"
  by (simp add: fetchData_def catchFetchError_def getOfflineData_def Let_def remoteDown_def
        errorMessage_def shelf_def isSet_def getField_def foodRow_def homeRow_def)

section \<open>Properties of the sales-trend chart\<close>

lemma totalRevenue_sum: "totalRevenue points = sum_list (map revenue points)"
proof -
  have "foldl (\<lambda>sum item. sum + revenue item) a points = a + sum_list (map revenue points)" for a
    by (induction points arbitrary: a) simp_all
  then show ?thesis by (simp add: totalRevenue_def)
qed

lemma label_toPoints: "map label (toPoints labelOf m) = map fst (sort_key fst m)"
  by (simp add: toPoints_def split_def)

lemma revenue_toPoints: "map revenue (toPoints labelOf m) = map snd (sort_key fst m)"
  by (simp add: toPoints_def split_def)

lemma entry_toPoints:
  "p \<in> set (toPoints labelOf m) \<Longrightarrow> (label p, revenue p) \<in> set m"
  by (auto simp: toPoints_def)

lemma sorted_labels:
  assumes "distinct (map fst m)"
  shows "sorted_wrt (<) (map label (toPoints labelOf m))"
proof -
  have "mset (map fst (sort_key fst m)) = mset (map fst m)" by simp
  then have "distinct (map fst (sort_key fst m))"
    using assms by (metis mset_eq_imp_distinct_iff)
  moreover have "sorted (map fst (sort_key fst m))" by (rule sorted_sort_key)
  ultimately show ?thesis by (simp add: label_toPoints strict_sorted_iff)
qed

lemma sum_revenue_toPoints:
  "sum_list (map revenue (toPoints labelOf m)) = sum_list (map snd m)"
proof -
  have "mset (map snd (sort_key fst m)) = mset (map snd m)" by simp
  then have "sum_mset (mset (map snd (sort_key fst m))) = sum_mset (mset (map snd m))" by simp
  then show ?thesis by (simp only: revenue_toPoints sum_mset_sum_list)
qed

lemma sum_update:
  "sum_list (map snd (AList.update k v m)) =
     sum_list (map snd m) - (case map_of m k of None \<Rightarrow> 0 | Some w \<Rightarrow> w) + (v::int)"
  by (induction m) auto

lemma in_update:
  "(k', v') \<in> set (AList.update k v m) \<Longrightarrow> (k', v') \<in> set m \<or> (k' = k \<and> v' = v)"
  by (induction m) (auto split: if_splits)

lemma getOrZero_update:
  "getOrZero (AList.update k v m) k' = (if k' = k then v else getOrZero m k')"
  by (simp add: getOrZero_def AList.update_conv' orZero_def)

lemma getOrZero_entry:
  "distinct (map fst m) \<Longrightarrow> (k, v) \<in> set m \<Longrightarrow> getOrZero m k = v"
  by (simp add: getOrZero_def orZero_def)

lemma getOrZero_sum: "(case map_of m k of None \<Rightarrow> 0 | Some w \<Rightarrow> w) = getOrZero m k"
  by (simp add: getOrZero_def orZero_def split: option.splits)

lemma getOrZero_zeroMap: "zeroMap m \<Longrightarrow> getOrZero m k = 0"
  by (auto simp: getOrZero_def orZero_def zeroMap_def list_all_iff split: option.splits dest!: map_of_SomeD)

lemma zeroMap_update: "zeroMap m \<Longrightarrow> zeroMap (AList.update k 0 m)"
  by (auto simp: zeroMap_def AList.distinct_update list_all_iff dest: in_update)

lemma zeroMap_fold:
  "zeroMap m \<Longrightarrow> zeroMap (fold (\<lambda>i m. AList.update (f i) 0 m) xs m)"
  by (induction xs arbitrary: m) (simp_all add: zeroMap_update)

lemma zeroMap_hourBuckets: "zeroMap (hourBuckets rt now)"
  unfolding hourBuckets_def by (rule zeroMap_fold) (simp add: zeroMap_def)

lemma initBuckets_ends:
  assumes "\<forall>d. d < next d" and "zeroMap m"
  shows "\<exists>m'. initBuckets next keyOf d e m = Some m' \<and> zeroMap m'"
  using assms(2)
proof (induction "nat (e + 1 - d)" arbitrary: d m rule: less_induct)
  case less
  show ?case
  proof (cases "d \<le> e")
    case False
    then show ?thesis using less.prems by (subst initBuckets.simps) simp
  next
    case True
    have "d < next d" using assms(1) by blast
    with True have "nat (e + 1 - next d) < nat (e + 1 - d)" by simp
    from less.hyps[OF this zeroMap_update[OF less.prems]]
    obtain m' where "initBuckets next keyOf (next d) e (AList.update (keyOf d) 0 m) = Some m'"
      "zeroMap m'" by blast
    then show ?thesis using True by (subst initBuckets.simps) simp
  qed
qed

lemma aggregate_Nil [simp]: "aggregate rt keyOf guard [] m = m"
  by (simp add: aggregate_def)

lemma aggregate_Cons [simp]:
  "aggregate rt keyOf guard (s # sales) m = aggregate rt keyOf guard sales (addSale rt keyOf guard s m)"
  by (simp add: aggregate_def)

lemma distinct_addSale:
  "distinct (map fst m) \<Longrightarrow> distinct (map fst (addSale rt keyOf guard s m))"
  by (simp add: addSale_def Let_def AList.distinct_update)

lemma keys_addSale:
  "fst ` set (addSale rt keyOf guard s m) =
     fst ` set m \<union> (if guard (parse rt (sale_timestamp s)) then {keyOf (parse rt (sale_timestamp s))} else {})"
  by (simp add: addSale_def Let_def AList.dom_update)

lemma getOrZero_addSale:
  "getOrZero (addSale rt keyOf guard s m) k =
     getOrZero m k + (if guard (parse rt (sale_timestamp s)) \<and> keyOf (parse rt (sale_timestamp s)) = k
                      then contribution s else 0)"
  by (simp add: addSale_def Let_def getOrZero_update)

lemma sum_addSale:
  "sum_list (map snd (addSale rt keyOf guard s m)) =
     sum_list (map snd m) + (if guard (parse rt (sale_timestamp s)) then contribution s else 0)"
  by (simp add: addSale_def Let_def sum_update getOrZero_sum)

lemma distinct_aggregate:
  "distinct (map fst m) \<Longrightarrow> distinct (map fst (aggregate rt keyOf guard sales m))"
  by (induction sales arbitrary: m) (simp_all add: distinct_addSale)

lemma keys_aggregate:
  "fst ` set (aggregate rt keyOf guard sales m) =
     fst ` set m \<union> {keyOf (parse rt (sale_timestamp s)) | s. s \<in> set sales \<and> guard (parse rt (sale_timestamp s))}"
proof (induction sales arbitrary: m)
  case Nil
  then show ?case by simp
next
  case (Cons s sales)
  have "fst ` set (aggregate rt keyOf guard (s # sales) m) =
      fst ` set (addSale rt keyOf guard s m)
        \<union> {keyOf (parse rt (sale_timestamp s)) | s. s \<in> set sales \<and> guard (parse rt (sale_timestamp s))}"
    by (simp add: Cons.IH)
  also have "\<dots> = fst ` set m \<union> {keyOf (parse rt (sale_timestamp x)) | x. x \<in> set (s # sales) \<and> guard (parse rt (sale_timestamp x))}"
    unfolding keys_addSale by (cases "guard (parse rt (sale_timestamp s))") auto
  finally show ?case .
qed

lemma getOrZero_aggregate:
  "getOrZero (aggregate rt keyOf guard sales m) k =
     getOrZero m k + sum_list (map contribution
        (filter (\<lambda>s. guard (parse rt (sale_timestamp s)) \<and> keyOf (parse rt (sale_timestamp s)) = k) sales))"
  by (induction sales arbitrary: m) (simp_all add: getOrZero_addSale)

lemma sum_aggregate:
  "sum_list (map snd (aggregate rt keyOf guard sales m)) =
     sum_list (map snd m) + sum_list (map contribution
        (filter (\<lambda>s. guard (parse rt (sale_timestamp s))) sales))"
  by (induction sales arbitrary: m) (simp_all add: sum_addSale)

lemma contribution_nonneg: "0 \<le> contribution s"
  by (simp add: contribution_def)

lemma sum_zeroMap: "zeroMap m \<Longrightarrow> sum_list (map snd m) = 0"
  by (induction m) (auto simp: zeroMap_def)

text \<open>The chart of any timeframe is the same pipeline on buckets that start at zero.\<close>

lemma chart_pipeline:
  fixes rt :: dates and keyOf :: "int \<Rightarrow> string" and guard :: "int \<Rightarrow> bool"
    and sales :: "Sale list" and labelOf :: "string \<Rightarrow> string" and m0 :: dataMap
  assumes "zeroMap m0"
  defines "points \<equiv> toPoints labelOf (aggregate rt keyOf guard sales m0)"
  defines "chosen \<equiv> (\<lambda>s. guard (parse rt (sale_timestamp s)))"
  defines "key \<equiv> (\<lambda>s. keyOf (parse rt (sale_timestamp s)))"
  shows "sorted_wrt (<) (map label points)"
    and "\<forall>p\<in>set points. 0 \<le> revenue p \<and>
           revenue p = sum_list (map contribution (filter (\<lambda>s. chosen s \<and> key s = label p) sales))"
    and "\<forall>s\<in>set sales. chosen s \<longrightarrow> key s \<in> set (map label points)"
    and "totalRevenue points = sum_list (map revenue points)"
    and "totalRevenue points = sum_list (map contribution (filter chosen sales))"
proof -
  let ?m = "aggregate rt keyOf guard sales m0"
  have d0: "distinct (map fst m0)" using assms(1) by (simp add: zeroMap_def)
  have d: "distinct (map fst ?m)" by (rule distinct_aggregate[OF d0])
  show "sorted_wrt (<) (map label points)"
    unfolding points_def by (rule sorted_labels[OF d])
  show "\<forall>p\<in>set points. 0 \<le> revenue p \<and>
           revenue p = sum_list (map contribution (filter (\<lambda>s. chosen s \<and> key s = label p) sales))"
  proof
    fix p assume "p \<in> set points"
    then have "(label p, revenue p) \<in> set ?m" unfolding points_def by (rule entry_toPoints)
    from getOrZero_entry[OF d this]
    have "revenue p = sum_list (map contribution (filter (\<lambda>s. chosen s \<and> key s = label p) sales))"
      by (simp add: getOrZero_aggregate getOrZero_zeroMap[OF assms(1)] chosen_def key_def)
    moreover have "0 \<le> sum_list (map contribution (filter (\<lambda>s. chosen s \<and> key s = label p) sales))"
      by (rule sum_list_nonneg) (auto simp: contribution_nonneg)
    ultimately show "0 \<le> revenue p \<and>
           revenue p = sum_list (map contribution (filter (\<lambda>s. chosen s \<and> key s = label p) sales))"
      by simp
  qed
  show "\<forall>s\<in>set sales. chosen s \<longrightarrow> key s \<in> set (map label points)"
  proof (intro ballI impI)
    fix s assume "s \<in> set sales" "chosen s"
    then have "key s \<in> fst ` set ?m"
      unfolding keys_aggregate chosen_def key_def by blast
    then show "key s \<in> set (map label points)"
      unfolding points_def label_toPoints by simp
  qed
  show "totalRevenue points = sum_list (map revenue points)" by (rule totalRevenue_sum)
  show "totalRevenue points = sum_list (map contribution (filter chosen sales))"
    unfolding points_def totalRevenue_sum sum_revenue_toPoints sum_aggregate chosen_def
    by (simp add: sum_zeroMap[OF assms(1)])
qed

lemma chartData_hourly:
  "chartData rt now hourly sales =
     Some (toPoints (hourLabel rt)
             (aggregate rt (hourKey rt) (\<lambda>saleDate. now - 48 * 60 * 60 * 1000 \<le> saleDate) sales
                (hourBuckets rt now)))"
  by (simp add: chartData_def)

lemma chartData_daily:
  assumes "advances rt daily"
  shows "\<exists>m0. zeroMap m0 \<and> chartData rt now daily sales =
     Some (toPoints (dayLabel rt)
             (aggregate rt (dayKey rt)
                (\<lambda>saleDate. startDate rt now sales \<le> saleDate \<and> saleDate \<le> now) sales m0))"
proof -
  from assms have adv: "\<forall>d. d < setDate rt d (getDate rt d + 1)" by (simp add: advances_def)
  have "zeroMap []" by (simp add: zeroMap_def)
  from initBuckets_ends[OF adv this, of "dayKey rt" "startDate rt now sales" now]
  obtain m0 where "initBuckets (\<lambda>d. setDate rt d (getDate rt d + 1)) (dayKey rt)
                     (startDate rt now sales) now [] = Some m0" "zeroMap m0" by blast
  then show ?thesis by (auto simp: chartData_def)
qed

lemma chartData_monthly:
  assumes "advances rt monthly"
  shows "\<exists>m0. zeroMap m0 \<and> chartData rt now monthly sales =
     Some (toPoints (monthLabel rt)
             (aggregate rt (monthKey rt)
                (\<lambda>saleDate. startMonth rt now sales \<le> saleDate \<and> saleDate \<le> now) sales m0))"
proof -
  from assms have adv: "\<forall>m. m < setMonth rt m (getMonth rt m + 1)" by (simp add: advances_def)
  have "zeroMap []" by (simp add: zeroMap_def)
  from initBuckets_ends[OF adv this, of "monthKey rt"
         "newDate rt (getFullYear rt (startMonth rt now sales)) (getMonth rt (startMonth rt now sales)) 1"
         "newDate rt (getFullYear rt now) (getMonth rt now) 1"]
  obtain m0 where "initBuckets (\<lambda>m. setMonth rt m (getMonth rt m + 1)) (monthKey rt)
         (newDate rt (getFullYear rt (startMonth rt now sales)) (getMonth rt (startMonth rt now sales)) 1)
         (newDate rt (getFullYear rt now) (getMonth rt now) 1) [] = Some m0" "zeroMap m0" by blast
  then show ?thesis by (auto simp: chartData_def Let_def)
qed

text \<open>Every timeframe: buckets that start at zero, then the sales that pass the guard.\<close>

lemma chartData_shape:
  assumes "advances rt timeframe"
  shows "\<exists>m0 labelOf keyOf guard. zeroMap m0
     \<and> chartData rt now timeframe sales = Some (toPoints labelOf (aggregate rt keyOf guard sales m0))
     \<and> (\<forall>s. inWindow rt now timeframe sales s = guard (parse rt (sale_timestamp s)))
     \<and> (\<forall>s. saleKey rt timeframe s = keyOf (parse rt (sale_timestamp s)))"
proof (cases timeframe)
  case hourly
  have "zeroMap (hourBuckets rt now)" by (rule zeroMap_hourBuckets)
  moreover note chartData_hourly[of rt now sales]
  moreover have "\<forall>s. inWindow rt now hourly sales s =
      (now - 48 * 60 * 60 * 1000 \<le> parse rt (sale_timestamp s))"
    by (simp add: inWindow_def Let_def)
  moreover have "\<forall>s. saleKey rt hourly s = hourKey rt (parse rt (sale_timestamp s))"
    by (simp add: saleKey_def)
  ultimately show ?thesis unfolding hourly by blast
next
  case daily
  from chartData_daily[OF assms[unfolded daily], of now sales] obtain m0 where
    "zeroMap m0" "chartData rt now daily sales =
     Some (toPoints (dayLabel rt)
             (aggregate rt (dayKey rt)
                (\<lambda>saleDate. startDate rt now sales \<le> saleDate \<and> saleDate \<le> now) sales m0))"
    by blast
  moreover have "\<forall>s. inWindow rt now daily sales s =
      (startDate rt now sales \<le> parse rt (sale_timestamp s) \<and> parse rt (sale_timestamp s) \<le> now)"
    by (simp add: inWindow_def Let_def)
  moreover have "\<forall>s. saleKey rt daily s = dayKey rt (parse rt (sale_timestamp s))"
    by (simp add: saleKey_def)
  ultimately show ?thesis unfolding daily by blast
next
  case monthly
  from chartData_monthly[OF assms[unfolded monthly], of now sales] obtain m0 where
    "zeroMap m0" "chartData rt now monthly sales =
     Some (toPoints (monthLabel rt)
             (aggregate rt (monthKey rt)
                (\<lambda>saleDate. startMonth rt now sales \<le> saleDate \<and> saleDate \<le> now) sales m0))"
    by blast
  moreover have "\<forall>s. inWindow rt now monthly sales s =
      (startMonth rt now sales \<le> parse rt (sale_timestamp s) \<and> parse rt (sale_timestamp s) \<le> now)"
    by (simp add: inWindow_def Let_def)
  moreover have "\<forall>s. saleKey rt monthly s = monthKey rt (parse rt (sale_timestamp s))"
    by (simp add: saleKey_def)
  ultimately show ?thesis unfolding monthly by blast
qed

lemma hourly_total:
  "map_option totalRevenue (chartData rt now hourly sales) =
     Some (sum_list (map contribution
        (filter (\<lambda>s. now - 48 * 60 * 60 * 1000 \<le> parse rt (sale_timestamp s)) sales)))"
  using chart_pipeline(5)[OF zeroMap_hourBuckets, where labelOf = "hourLabel rt" and rt = rt
          and keyOf = "hourKey rt" and sales = sales
          and guard = "\<lambda>saleDate. now - 48 * 60 * 60 * 1000 \<le> saleDate"]
  by (simp add: chartData_hourly)

text \<open>
Claim C10 as stated fails for a sale outside the window of the timeframe: in the hourly
  chart at noon of 1 January 2024 a sale of 500 made a week earlier fails the guard
  \<open>saleDate >= now - 48h\<close> and is added to no bucket, so the total shown is 0.
\<close>

theorem week_old_sale_counterexample:
  "contribution oldSale = 500
   \<and> map_option totalRevenue (chartData utcDates 1704110400000 hourly [oldSale]) = Some 0"
proof -
  have c: "contribution oldSale = 500" by (simp add: contribution_def oldSale_def)
  have "parse utcDates (sale_timestamp oldSale) = 1703498400000" by code_simp
  then have "map_option totalRevenue (chartData utcDates 1704110400000 hourly [oldSale]) = Some 0"
    by (simp add: hourly_total)
  with c show ?thesis by blast
qed

text \<open>
Claim C10, amended. Provided the runtime's day and month steps move a date forward (so
  that the loops that create the buckets end), the chart of every timeframe is produced and
  its points are in strictly ascending order of bucket key; the revenue of every bucket is
  non-negative and is the sum of \<open>max 0 (total - discountAmount)\<close> over the sales that pass
  the guard of the timeframe and have that bucket's key; every such sale has a bucket, so it
  is counted in exactly one, and a sale that fails the guard is counted in none; the total
  shown is the sum of the bucket revenues, which is the sum over the sales that pass the
  guard.
\<close>

theorem chart_sorted_nonnegative_total:
  assumes "advances rt timeframe"
  shows "\<exists>points. chartData rt now timeframe sales = Some points
     \<and> sorted_wrt (<) (map label points)
     \<and> (\<forall>p\<in>set points. 0 \<le> revenue p
           \<and> revenue p = sum_list (map contribution
               (filter (\<lambda>s. inWindow rt now timeframe sales s \<and> saleKey rt timeframe s = label p) sales)))
     \<and> (\<forall>s\<in>set sales. inWindow rt now timeframe sales s \<longrightarrow>
           saleKey rt timeframe s \<in> set (map label points))
     \<and> totalRevenue points = sum_list (map revenue points)
     \<and> totalRevenue points =
         sum_list (map contribution (filter (inWindow rt now timeframe sales) sales))"
proof -
  from chartData_shape[OF assms, of now sales] obtain m0 labelOf keyOf guard where
    z: "zeroMap m0"
    and c: "chartData rt now timeframe sales = Some (toPoints labelOf (aggregate rt keyOf guard sales m0))"
    and w: "\<And>s. inWindow rt now timeframe sales s = guard (parse rt (sale_timestamp s))"
    and k: "\<And>s. saleKey rt timeframe s = keyOf (parse rt (sale_timestamp s))"
    by blast
  let ?points = "toPoints labelOf (aggregate rt keyOf guard sales m0)"
  note p = chart_pipeline[OF z, where labelOf = labelOf and rt = rt and keyOf = keyOf and guard = guard and sales = sales]
  have w': "inWindow rt now timeframe sales = (\<lambda>s. guard (parse rt (sale_timestamp s)))"
    using w by (intro ext)
  have "sorted_wrt (<) (map label ?points)" by (rule p(1))
  moreover have "\<forall>p\<in>set ?points. 0 \<le> revenue p
           \<and> revenue p = sum_list (map contribution
               (filter (\<lambda>s. inWindow rt now timeframe sales s \<and> saleKey rt timeframe s = label p) sales))"
    unfolding w k by (rule p(2))
  moreover have "\<forall>s\<in>set sales. inWindow rt now timeframe sales s \<longrightarrow>
           saleKey rt timeframe s \<in> set (map label ?points)"
    unfolding w k by (rule p(3))
  moreover have "totalRevenue ?points = sum_list (map revenue ?points)" by (rule p(4))
  moreover have "totalRevenue ?points =
         sum_list (map contribution (filter (inWindow rt now timeframe sales) sales))"
    using p(5) by (simp add: w')
  ultimately show ?thesis using c by blast
qed

theorem chart_sorted_nonnegative_total_witness:
  "advances utcDates daily
   \<and> map_option totalRevenue (chartData utcDates 1704110400000 daily [oldSale, morningSale]) = Some 750"
proof -
  have h: "advances utcDates daily" by (simp add: advances_def utcDates_def)
  have w1: "inWindow utcDates 1704110400000 daily [oldSale, morningSale] oldSale" by code_simp
  have w2: "inWindow utcDates 1704110400000 daily [oldSale, morningSale] morningSale" by code_simp
  have c: "contribution oldSale = 500" "contribution morningSale = 250"
    by (simp_all add: contribution_def oldSale_def morningSale_def orZero_def)
  from chart_sorted_nonnegative_total[OF h, of 1704110400000 "[oldSale, morningSale]"]
  obtain points where "chartData utcDates 1704110400000 daily [oldSale, morningSale] = Some points"
    "totalRevenue points = sum_list (map contribution
        (filter (inWindow utcDates 1704110400000 daily [oldSale, morningSale]) [oldSale, morningSale]))"
    by blast
  then have "map_option totalRevenue (chartData utcDates 1704110400000 daily [oldSale, morningSale]) = Some 750"
    using w1 w2 c by simp
  with h show ?thesis by blast
qed

end
